theory Spec2Isabelle
  imports Complex_Main
begin

section \<open>mini_evm: a stack machine with gas metering and atomic transactions\<close>

text \<open>
  This theory embeds \<^verbatim>\<open>src/vm.py\<close>: the classes \<^verbatim>\<open>Contract\<close>, \<^verbatim>\<open>World\<close> and \<^verbatim>\<open>VM\<close>.

  Conventions of the embedding.
  \<^item> Python integers are unbounded, so stack values, gas and storage values are \<open>int\<close>.
  \<^item> A Python \<^verbatim>\<open>dict\<close> is a map \<open>'k \<rightharpoonup> 'v\<close>; no operation of the program depends on
    the order of the keys.
  \<^item> The operand stack is a Python list whose top is its last element; the model keeps
    that orientation (\<open>xs @ [v]\<close> is \<^verbatim>\<open>append\<close>, \<open>last\<close>/\<open>butlast\<close> is \<^verbatim>\<open>pop\<close>).
  \<^item> Exceptions are values: a frame returns \<open>Inl\<close> of the exception or \<open>Inr\<close> of its
    result. \<^verbatim>\<open>VMExecutionError\<close> carries one constructor per message of the source; the
    built-in exceptions that the source can raise without catching them are separate
    constructors of \<open>py_exception\<close>.
  \<^item> The staged snapshot and the call trace are objects shared by all frames of a
    transaction and mutated in place, also by a frame that later raises. They are
    threaded through every function as the record \<open>shared\<close> and returned with errors
    as well as with results.
  \<^item> Instruction texts are ASCII strings: \<^verbatim>\<open>str.strip\<close>, \<^verbatim>\<open>str.split\<close>, \<^verbatim>\<open>str.upper\<close> and
    \<^verbatim>\<open>int\<close> are modelled on ASCII (whitespace is 0x09-0x0D, 0x1C-0x1F and 0x20; only
    a-z change case; an integer literal is an optional sign and decimal digits, single
    underscores allowed between digits). Python's recursion limit and the limit of
    \<^verbatim>\<open>int\<close> on the number of digits are not modelled.
  \<^item> \<^verbatim>\<open>time.perf_counter()\<close> is read twice by a transaction; the two readings are
    parameters of \<open>execute_transaction\<close>.
\<close>

subsection \<open>Exceptions\<close>

text \<open>One constructor for each \<^verbatim>\<open>raise VMExecutionError(...)\<close> of the source, in source order
  of first appearance; the string arguments are the interpolated address or opcode.\<close>

datatype vm_error =
    ContractNotFound string
  | OutOfGas
  | PushMissingArgument
  | PopFromEmptyStack
  | NeedsTwoOperands string
  | DivisionByZero
  | LoadMissingKey
  | StoreMissingKey
  | StoreNeedsValue
  | LogEmptyStack
  | CallNeedsOperands
  | InsufficientGasForCall
  | NotEnoughArgsForCall
  | UnknownOp string

text \<open>\<open>ValueError\<close> is what \<^verbatim>\<open>int(text)\<close> raises on a text that is no integer literal (and what
  \<^verbatim>\<open>World.deploy\<close> raises on a used address); \<open>KeyError\<close> is a failed \<^verbatim>\<open>snapshot[addr]\<close>;
  \<open>IndexError\<close> is a failed \<^verbatim>\<open>parts[0]\<close>.\<close>

datatype py_exception = VMExecutionError vm_error | ValueError | KeyError | IndexError

subsection \<open>Data model\<close>

record contract =
  address :: string
  code :: "string list"
  storage :: "string \<rightharpoonup> int"

text \<open>\<^verbatim>\<open>World.contracts\<close>: address to contract.\<close>

type_synonym world = "string \<rightharpoonup> contract"

text \<open>The two kinds of dictionaries appended to \<^verbatim>\<open>call_trace\<close>:
  \<open>Log contract value\<close> and \<open>Call caller callee gas_provided gas_used return\<close>.\<close>

datatype event =
    Log string int
  | Call string string int int int

text \<open>The objects every frame of one transaction shares: \<^verbatim>\<open>snapshot\<close> and \<^verbatim>\<open>call_trace\<close>
  (field \<open>trace\<close>).\<close>

record shared =
  snapshot :: "string \<rightharpoonup> (string \<rightharpoonup> int)"
  trace :: "event list"

text \<open>The local variables of one activation of \<^verbatim>\<open>_exec_contract_frame\<close>: \<^verbatim>\<open>gas_remaining\<close>,
  \<^verbatim>\<open>stack\<close> and \<^verbatim>\<open>op_counts\<close> (field \<open>counts\<close>).\<close>

record frame =
  gas_remaining :: int
  stack :: "int list"
  counts :: "string \<rightharpoonup> int"

text \<open>The dictionary \<^verbatim>\<open>execute_transaction\<close> returns, with its keys as field names.\<close>

record execution_result =
  success :: bool
  return :: "int option"
  gas_used :: int
  op_counts :: "string \<rightharpoonup> int"
  call_trace :: "event list"
  duration_s :: real

subsection \<open>World\<close>

text \<open>\<^verbatim>\<open>World.deploy\<close>: raises on a used address, otherwise stores a contract with a copy of
  the code and empty storage.\<close>

definition deploy :: "world \<Rightarrow> string \<Rightarrow> string list \<Rightarrow> py_exception + world" where
  "deploy w addr cd =
     (if addr \<in> dom w then Inl ValueError
      else Inr (w(addr \<mapsto> \<lparr>address = addr, code = cd, storage = Map.empty\<rparr>)))"

text \<open>\<^verbatim>\<open>World.get_contract\<close> is \<^verbatim>\<open>self.contracts.get(address)\<close>: the contract, or \<^verbatim>\<open>None\<close>
  for an address that is not deployed. The world is returned next to the answer, to
  show what the call leaves behind.\<close>

definition get_contract :: "world \<Rightarrow> string \<Rightarrow> contract option \<times> world" where
  "get_contract w addr = (w addr, w)"

subsection \<open>Strings: strip, split, upper, int\<close>

definition isspace :: "char \<Rightarrow> bool" where
  "isspace c \<longleftrightarrow>
     (let n = (of_char c :: nat) in (9 \<le> n \<and> n \<le> 13) \<or> (28 \<le> n \<and> n \<le> 32))"

definition strip :: "string \<Rightarrow> string" where
  "strip s = rev (dropWhile isspace (rev (dropWhile isspace s)))"

text \<open>\<^verbatim>\<open>str.split()\<close> without arguments: the maximal runs of non-whitespace characters.
  \<open>cur\<close> is the run being read.\<close>

fun split_from :: "string \<Rightarrow> string \<Rightarrow> string list" where
  "split_from cur [] = (if cur = [] then [] else [cur])"
| "split_from cur (c # cs) =
     (if isspace c then (if cur = [] then split_from [] cs else cur # split_from [] cs)
      else split_from (cur @ [c]) cs)"

definition split :: "string \<Rightarrow> string list" where
  "split s = split_from [] s"

definition upper_char :: "char \<Rightarrow> char" where
  "upper_char c =
     (let n = (of_char c :: nat) in if 97 \<le> n \<and> n \<le> 122 then char_of (n - 32) else c)"

definition upper :: "string \<Rightarrow> string" where
  "upper s = map upper_char s"

definition digit_val :: "char \<Rightarrow> nat option" where
  "digit_val c =
     (let n = (of_char c :: nat) in if 48 \<le> n \<and> n \<le> 57 then Some (n - 48) else None)"

text \<open>The digits after the first one: a digit, or one underscore followed by a digit.\<close>

fun more_digits :: "nat \<Rightarrow> string \<Rightarrow> nat option" where
  "more_digits acc [] = Some acc"
| "more_digits acc (c # cs) =
     (if c = CHR ''_'' then
        (case cs of
           [] \<Rightarrow> None
         | d # ds \<Rightarrow>
             (case digit_val d of
                None \<Rightarrow> None
              | Some v \<Rightarrow> more_digits (10 * acc + v) ds))
      else
        (case digit_val c of
           None \<Rightarrow> None
         | Some v \<Rightarrow> more_digits (10 * acc + v) cs))"

definition digits :: "string \<Rightarrow> nat option" where
  "digits s =
     (case s of
        [] \<Rightarrow> None
      | c # cs \<Rightarrow> (case digit_val c of None \<Rightarrow> None | Some v \<Rightarrow> more_digits v cs))"

text \<open>\<^verbatim>\<open>int(text)\<close> on a token (which holds no whitespace): \<open>None\<close> stands for the
  \<^verbatim>\<open>ValueError\<close> it raises.\<close>

definition py_int :: "string \<Rightarrow> int option" where
  "py_int s =
     (case s of
        [] \<Rightarrow> None
      | c # cs \<Rightarrow>
          if c = CHR ''-'' then map_option (\<lambda>n. - int n) (digits cs)
          else if c = CHR ''+'' then map_option int (digits cs)
          else map_option int (digits s))"

subsection \<open>Gas meter\<close>

definition OPCOST :: "string \<rightharpoonup> int" where
  "OPCOST =
     [''PUSH'' \<mapsto> 1, ''POP'' \<mapsto> 1,
      ''ADD'' \<mapsto> 3, ''SUB'' \<mapsto> 3, ''MUL'' \<mapsto> 5, ''DIV'' \<mapsto> 5,
      ''LOAD'' \<mapsto> 5, ''STORE'' \<mapsto> 20,
      ''CALL'' \<mapsto> 10, ''RETURN'' \<mapsto> 0,
      ''LOG'' \<mapsto> 1]"

text \<open>\<^verbatim>\<open>d.get(k, default)\<close>.\<close>

definition get_or :: "('k \<rightharpoonup> 'v) \<Rightarrow> 'k \<Rightarrow> 'v \<Rightarrow> 'v" where
  "get_or m k d = (case m k of None \<Rightarrow> d | Some v \<Rightarrow> v)"

text \<open>The local function \<^verbatim>\<open>charge(op)\<close>: the debit and the count happen before the test, and
  the frame that raises is dropped with them.\<close>

definition charge :: "string \<Rightarrow> frame \<Rightarrow> py_exception + frame" where
  "charge op fr =
     (let cost = get_or OPCOST op 1;
          fr' = fr\<lparr>gas_remaining := gas_remaining fr - cost,
                   counts := (counts fr)(op \<mapsto> get_or (counts fr) op 0 + 1)\<rparr>
      in if gas_remaining fr' < 0 then Inl (VMExecutionError OutOfGas) else Inr fr')"

text \<open>\<^verbatim>\<open>for k,v in child_op_counts.items(): op_counts[k] += v\<close> on a \<^verbatim>\<open>defaultdict(int)\<close>.\<close>

definition merge_counts ::
    "(string \<rightharpoonup> int) \<Rightarrow> (string \<rightharpoonup> int) \<Rightarrow> (string \<rightharpoonup> int)" where
  "merge_counts mine child =
     (\<lambda>k. case child k of None \<Rightarrow> mine k | Some v \<Rightarrow> Some (get_or mine k 0 + v))"

subsection \<open>The opcode interpreter\<close>

text \<open>
  What one branch of the \<^verbatim>\<open>if/elif\<close> chain does after the charge:
  \<^item> \<open>Continue fr sh\<close>: the branch falls through to \<^verbatim>\<open>ip += 1\<close> with these locals and
    shared objects;
  \<^item> \<open>Return\<close>: the \<^verbatim>\<open>RETURN\<close> branch;
  \<^item> \<open>Raise e\<close>: the branch raises before it changes any shared object;
  \<^item> \<open>Invoke callee gas_amount args fr\<close>: the \<^verbatim>\<open>CALL\<close> branch has popped the arguments
    and reserved the gas (\<open>fr\<close> are the caller's locals at that point) and now runs the
    callee's frame.
\<close>

datatype action =
    Continue frame shared
  | Return
  | Raise py_exception
  | Invoke string int "int list" frame

definition op_push :: "string list \<Rightarrow> frame \<Rightarrow> shared \<Rightarrow> action" where
  "op_push parts fr sh =
     (if length parts < 2 then Raise (VMExecutionError PushMissingArgument)
      else (case py_int (parts ! 1) of
              None \<Rightarrow> Raise ValueError
            | Some val \<Rightarrow> Continue (fr\<lparr>stack := stack fr @ [val]\<rparr>) sh))"

definition op_pop :: "frame \<Rightarrow> shared \<Rightarrow> action" where
  "op_pop fr sh =
     (if stack fr = [] then Raise (VMExecutionError PopFromEmptyStack)
      else Continue (fr\<lparr>stack := butlast (stack fr)\<rparr>) sh)"

text \<open>The inner chain of the arithmetic branch ends with \<^verbatim>\<open>elif op == "DIV"\<close> and has no
  \<^verbatim>\<open>else\<close>: any other opcode would leave the stack two values shorter. The outer test
  admits the four opcodes only.\<close>

definition op_arith :: "string \<Rightarrow> frame \<Rightarrow> shared \<Rightarrow> action" where
  "op_arith op fr sh =
     (if length (stack fr) < 2 then Raise (VMExecutionError (NeedsTwoOperands op))
      else
        let a = last (stack fr);
            b = last (butlast (stack fr));
            st = butlast (butlast (stack fr))
        in if op = ''ADD'' then Continue (fr\<lparr>stack := st @ [b + a]\<rparr>) sh
           else if op = ''SUB'' then Continue (fr\<lparr>stack := st @ [b - a]\<rparr>) sh
           else if op = ''MUL'' then Continue (fr\<lparr>stack := st @ [b * a]\<rparr>) sh
           else if op = ''DIV'' then
             (if a = 0 then Raise (VMExecutionError DivisionByZero)
              else Continue (fr\<lparr>stack := st @ [b div a]\<rparr>) sh)
           else Continue (fr\<lparr>stack := st\<rparr>) sh)"

text \<open>\<^verbatim>\<open>local_storage\<close> is the dictionary object \<^verbatim>\<open>snapshot[contract_addr]\<close>, bound at frame
  entry (where a missing entry raises); a nested frame of the same contract writes to
  the same object, so the model reads and writes the entry of the shared snapshot.\<close>

definition op_load :: "string list \<Rightarrow> string \<Rightarrow> frame \<Rightarrow> shared \<Rightarrow> action" where
  "op_load parts contract_addr fr sh =
     (if length parts < 2 then Raise (VMExecutionError LoadMissingKey)
      else
        let key = parts ! 1;
            local_storage = get_or (snapshot sh) contract_addr Map.empty
        in Continue (fr\<lparr>stack := stack fr @ [get_or local_storage key 0]\<rparr>) sh)"

definition op_store :: "string list \<Rightarrow> string \<Rightarrow> frame \<Rightarrow> shared \<Rightarrow> action" where
  "op_store parts contract_addr fr sh =
     (if length parts < 2 then Raise (VMExecutionError StoreMissingKey)
      else
        let key = parts ! 1 in
        if stack fr = [] then Raise (VMExecutionError StoreNeedsValue)
        else
          let val = last (stack fr);
              local_storage = get_or (snapshot sh) contract_addr Map.empty
          in Continue (fr\<lparr>stack := butlast (stack fr)\<rparr>)
               (sh\<lparr>snapshot := (snapshot sh)(contract_addr \<mapsto> local_storage(key \<mapsto> val))\<rparr>))"

definition op_log :: "string \<Rightarrow> frame \<Rightarrow> shared \<Rightarrow> action" where
  "op_log contract_addr fr sh =
     (if stack fr = [] then Raise (VMExecutionError LogEmptyStack)
      else
        let val = last (stack fr)
        in Continue (fr\<lparr>stack := butlast (stack fr)\<rparr>)
             (sh\<lparr>trace := trace sh @ [Log contract_addr val]\<rparr>))"

text \<open>The \<^verbatim>\<open>CALL\<close> branch up to the recursive call.
  \<^verbatim>\<open>[stack.pop() for _ in range(nargs)][::-1]\<close> takes the last \<open>nargs\<close> values in their
  order on the stack, and none when \<open>nargs\<close> is negative.\<close>

definition op_call :: "string list \<Rightarrow> frame \<Rightarrow> action" where
  "op_call parts fr =
     (if length parts < 4 then Raise (VMExecutionError CallNeedsOperands)
      else
        let callee = parts ! 1 in
        (case py_int (parts ! 2) of
           None \<Rightarrow> Raise ValueError
         | Some gas_amount \<Rightarrow>
             (case py_int (parts ! 3) of
                None \<Rightarrow> Raise ValueError
              | Some nargs \<Rightarrow>
                  if gas_remaining fr < gas_amount
                  then Raise (VMExecutionError InsufficientGasForCall)
                  else if int (length (stack fr)) < nargs
                  then Raise (VMExecutionError NotEnoughArgsForCall)
                  else
                    let keep = length (stack fr) - nat nargs
                    in Invoke callee gas_amount (drop keep (stack fr))
                         (fr\<lparr>stack := take keep (stack fr),
                             gas_remaining := gas_remaining fr - gas_amount\<rparr>))))"

text \<open>The \<^verbatim>\<open>if/elif\<close> chain, in source order.\<close>

definition dispatch :: "string \<Rightarrow> string list \<Rightarrow> string \<Rightarrow> frame \<Rightarrow> shared \<Rightarrow> action" where
  "dispatch op parts contract_addr fr sh =
     (if op = ''PUSH'' then op_push parts fr sh
      else if op = ''POP'' then op_pop fr sh
      else if op \<in> {''ADD'', ''SUB'', ''MUL'', ''DIV''} then op_arith op fr sh
      else if op \<in> {''LOAD'', ''SLOAD''} then op_load parts contract_addr fr sh
      else if op \<in> {''STORE'', ''SSTORE''} then op_store parts contract_addr fr sh
      else if op = ''LOG'' then op_log contract_addr fr sh
      else if op = ''CALL'' then op_call parts fr
      else if op = ''RETURN'' then Return
      else Raise (VMExecutionError (UnknownOp op)))"

text \<open>The two exits of a frame (the \<^verbatim>\<open>RETURN\<close> branch and the end of the code) run the same
  three lines: \<^verbatim>\<open>ret = stack.pop() if stack else 0\<close>,
  \<^verbatim>\<open>gas_used = gas_limit - gas_remaining\<close>, \<^verbatim>\<open>return ret, gas_used, op_counts\<close>.\<close>

definition finish :: "int \<Rightarrow> frame \<Rightarrow> int \<times> int \<times> (string \<rightharpoonup> int)" where
  "finish gas_limit fr =
     (let ret = (if stack fr \<noteq> [] then last (stack fr) else 0);
          gas_used = gas_limit - gas_remaining fr
      in (ret, gas_used, counts fr))"

type_synonym frame_result = "int \<times> int \<times> (string \<rightharpoonup> int)"

text \<open>
  \<open>exec_contract_frame\<close> is \<^verbatim>\<open>VM._exec_contract_frame\<close>; \<open>exec_loop\<close> is its \<^verbatim>\<open>while\<close> loop
  over the instructions from \<^verbatim>\<open>ip\<close> on (there is no jump, so the loop walks the rest of
  the code list). The loop returns the locals of the frame at its exit, from which the
  frame builds its result with \<open>finish\<close>.
\<close>

function exec_contract_frame ::
    "world \<Rightarrow> string \<Rightarrow> string \<Rightarrow> int \<Rightarrow> int list \<Rightarrow> shared
       \<Rightarrow> (py_exception + frame_result) \<times> shared"
  and exec_loop ::
    "world \<Rightarrow> string \<Rightarrow> string list \<Rightarrow> frame \<Rightarrow> shared \<Rightarrow> (py_exception + frame) \<times> shared"
where
  "exec_contract_frame w contract_addr caller gas_limit stk sh =
     (case w contract_addr of
        None \<Rightarrow> (Inl (VMExecutionError (ContractNotFound contract_addr)), sh)
      | Some contract \<Rightarrow>
          (case snapshot sh contract_addr of
             None \<Rightarrow> (Inl KeyError, sh)
           | Some local_storage \<Rightarrow>
               (case exec_loop w contract_addr (code contract)
                       \<lparr>gas_remaining = gas_limit, stack = stk, counts = Map.empty\<rparr> sh of
                  (Inl e, sh') \<Rightarrow> (Inl e, sh')
                | (Inr fr, sh') \<Rightarrow> (Inr (finish gas_limit fr), sh'))))"
| "exec_loop w contract_addr [] fr sh = (Inr fr, sh)"
| "exec_loop w contract_addr (line # rest) fr sh =
     (let instr = strip line in
      if instr = [] then exec_loop w contract_addr rest fr sh
      else
        (case split instr of
           [] \<Rightarrow> (Inl IndexError, sh)
         | p # ps \<Rightarrow>
             (case charge (upper p) fr of
                Inl e \<Rightarrow> (Inl e, sh)
              | Inr fr1 \<Rightarrow>
                  (case dispatch (upper p) (p # ps) contract_addr fr1 sh of
                     Continue fr2 sh2 \<Rightarrow> exec_loop w contract_addr rest fr2 sh2
                   | Return \<Rightarrow> (Inr fr1, sh)
                   | Raise e \<Rightarrow> (Inl e, sh)
                   | Invoke callee gas_amount args fr2 \<Rightarrow>
                       (case exec_contract_frame w callee contract_addr gas_amount args sh of
                          (Inl e, sh') \<Rightarrow> (Inl e, sh')
                        | (Inr (ret, child_gas_used, child_op_counts), sh') \<Rightarrow>
                            exec_loop w contract_addr rest
                              (fr2\<lparr>gas_remaining := gas_remaining fr2 + (gas_amount - child_gas_used),
                                   counts := merge_counts (counts fr2) child_op_counts,
                                   stack := stack fr2 @ [ret]\<rparr>)
                              (sh'\<lparr>trace := trace sh' @
                                  [Call contract_addr callee gas_amount child_gas_used ret]\<rparr>))))))"
  by pat_completeness auto

subsection \<open>The transaction coordinator\<close>

text \<open>The commit loop \<^verbatim>\<open>for addr in snapshot: self.world.contracts[addr].storage = snapshot[addr]\<close>.
  The snapshot is built from the world and frames never add or remove an entry
  (\<open>exec_keeps_snapshot_dom\<close> below), so every address of the snapshot is a contract of
  the world.\<close>

definition commit :: "world \<Rightarrow> (string \<rightharpoonup> (string \<rightharpoonup> int)) \<Rightarrow> world" where
  "commit w snap =
     (\<lambda>addr. case snap addr of
               None \<Rightarrow> w addr
             | Some st \<Rightarrow> (case w addr of None \<Rightarrow> None | Some c \<Rightarrow> Some (c\<lparr>storage := st\<rparr>)))"

text \<open>\<^verbatim>\<open>snapshot = {addr: dict(c.storage) for addr, c in self.world.contracts.items()}\<close> and
  \<^verbatim>\<open>call_trace = []\<close>.\<close>

definition stage :: "world \<Rightarrow> shared" where
  "stage w = \<lparr>snapshot = (\<lambda>addr. map_option storage (w addr)), trace = []\<rparr>"

text \<open>
  \<^verbatim>\<open>VM.execute_transaction\<close>. \<open>start\<close> and \<open>stop\<close> are the two readings of
  \<^verbatim>\<open>time.perf_counter()\<close>. The result is the returned dictionary, or the exception that
  leaves the method, together with the world the call leaves behind. Only
  \<^verbatim>\<open>VMExecutionError\<close> is caught; the returned \<^verbatim>\<open>call_trace\<close> is the list object the frames
  appended to.
\<close>

definition execute_transaction ::
    "world \<Rightarrow> string \<Rightarrow> string \<Rightarrow> int \<Rightarrow> int list \<Rightarrow> real \<Rightarrow> real
       \<Rightarrow> (py_exception + execution_result) \<times> world" where
  "execute_transaction w to_addr caller gas_limit input_args start stop =
     (case exec_contract_frame w to_addr caller gas_limit input_args (stage w) of
        (Inr (ret, used, oc), sh') \<Rightarrow>
          (Inr \<lparr>success = True, return = Some ret, gas_used = used, op_counts = oc,
                call_trace = trace sh', duration_s = stop - start\<rparr>,
           commit w (snapshot sh'))
      | (Inl (VMExecutionError e), sh') \<Rightarrow>
          (Inr \<lparr>success = False, return = None, gas_used = gas_limit, op_counts = Map.empty,
                call_trace = trace sh', duration_s = stop - start\<rparr>,
           w)
      | (Inl exn, sh') \<Rightarrow> (Inl exn, w))"

subsection \<open>Auxiliary notions of the proofs\<close>

text \<open>What a branch of the chain does to the remaining gas: nothing, except that \<^verbatim>\<open>CALL\<close>
  reserves an amount the frame has.\<close>

definition keeps_gas :: "frame \<Rightarrow> action \<Rightarrow> bool" where
  "keeps_gas fr act =
     (case act of
        Continue fr2 sh2 \<Rightarrow> gas_remaining fr2 = gas_remaining fr
      | Invoke callee g args fr2 \<Rightarrow>
          g \<le> gas_remaining fr \<and> gas_remaining fr2 = gas_remaining fr - g
      | _ \<Rightarrow> True)"

text \<open>What a branch of the chain does to the shared objects: nothing, one write to the
  storage of the running contract, or one log event appended.\<close>

definition shared_step :: "string \<Rightarrow> shared \<Rightarrow> action \<Rightarrow> bool" where
  "shared_step a sh act =
     (case act of
        Continue fr2 sh2 \<Rightarrow>
          sh2 = sh
          \<or> (\<exists>k v. sh2 = sh\<lparr>snapshot := (snapshot sh)(a \<mapsto> (get_or (snapshot sh) a Map.empty)(k \<mapsto> v))\<rparr>)
          \<or> (\<exists>v. sh2 = sh\<lparr>trace := trace sh @ [Log a v]\<rparr>)
      | _ \<Rightarrow> True)"

text \<open>The measures of the termination proof: the remaining gas cut off at zero, then the
  length of the code still to run (a frame counts its whole code plus one).\<close>

definition frame_measure ::
    "world \<times> string \<times> string \<times> int \<times> int list \<times> shared \<Rightarrow> nat \<times> nat" where
  "frame_measure =
     (\<lambda>(w, a, c, g, st, sh).
        (nat g, case w a of None \<Rightarrow> 0 | Some ct \<Rightarrow> Suc (length (code ct))))"

definition loop_measure ::
    "world \<times> string \<times> string list \<times> frame \<times> shared \<Rightarrow> nat \<times> nat" where
  "loop_measure = (\<lambda>(w, a, cd, fr, sh). (nat (gas_remaining fr), length cd))"

text \<open>Reading an outcome: the exception raised, or the value returned.\<close>

definition raised :: "(py_exception + 'a) \<times> 'b \<Rightarrow> py_exception option" where
  "raised out = (case fst out of Inl e \<Rightarrow> Some e | Inr r \<Rightarrow> None)"

definition returned :: "(py_exception + 'a) \<times> 'b \<Rightarrow> 'a option" where
  "returned out = (case fst out of Inl e \<Rightarrow> None | Inr r \<Rightarrow> Some r)"

text \<open>The exceptions the interpreter can raise on a world and a snapshot with the same
  addresses: its own, and the \<^verbatim>\<open>ValueError\<close> of \<^verbatim>\<open>int\<close>.\<close>

fun in_band :: "py_exception \<Rightarrow> bool" where
  "in_band (VMExecutionError v) = True"
| "in_band ValueError = True"
| "in_band KeyError = False"
| "in_band IndexError = False"

definition raises_in_band :: "action \<Rightarrow> bool" where
  "raises_in_band act = (case act of Raise e \<Rightarrow> in_band e | _ \<Rightarrow> True)"

text \<open>Gas accounting of a \<open>call\<close> event. \<open>within_budget\<close> is the bound as the specification
  words it; \<open>gas_accounted\<close> is the bound the interpreter keeps.\<close>

definition within_budget :: "event \<Rightarrow> bool" where
  "within_budget ev =
     (case ev of Call caller callee gas_provided used ret \<Rightarrow> used \<le> gas_provided | Log a v \<Rightarrow> True)"

definition gas_accounted :: "event \<Rightarrow> bool" where
  "gas_accounted ev =
     (case ev of
        Call caller callee gas_provided used ret \<Rightarrow>
          0 \<le> used \<and> (if 0 \<le> gas_provided then used \<le> gas_provided else used = 0)
      | Log a v \<Rightarrow> True)"


subsection \<open>An example world\<close>

text \<open>
  \<open>A\<close> and \<open>B\<close> are the two contracts of \<^verbatim>\<open>src/demo_mini_evm.py\<close>. The others exercise the
  failure paths: \<open>F\<close> logs and writes, then divides by zero; \<open>G\<close> writes and calls \<open>F\<close>;
  \<open>P\<close> and \<open>Q\<close> carry an operand that is no integer; \<open>E\<close> has no code; \<open>N\<close> and \<open>M\<close> call
  with a negative gas amount.
\<close>

definition test_world :: world where
  "test_world =
     [''A'' \<mapsto> \<lparr>address = ''A'',
                code = [''LOAD counter'', ''ADD'', ''STORE counter'', ''LOAD counter'', ''RETURN''],
                storage = Map.empty\<rparr>,
      ''B'' \<mapsto> \<lparr>address = ''B'',
                code = [''PUSH 2'', ''CALL A 200 1'', ''PUSH 10'', ''MUL'', ''STORE myvalue'',
                        ''LOAD myvalue'', ''RETURN''],
                storage = Map.empty\<rparr>,
      ''F'' \<mapsto> \<lparr>address = ''F'',
                code = [''PUSH 7'', ''LOG'', ''PUSH 5'', ''STORE x'', ''PUSH 1'', ''PUSH 0'', ''DIV''],
                storage = Map.empty\<rparr>,
      ''G'' \<mapsto> \<lparr>address = ''G'',
                code = [''PUSH 1'', ''STORE y'', ''CALL F 100 0'', ''RETURN''],
                storage = Map.empty\<rparr>,
      ''P'' \<mapsto> \<lparr>address = ''P'', code = [''PUSH abc''], storage = Map.empty\<rparr>,
      ''Q'' \<mapsto> \<lparr>address = ''Q'', code = [''CALL A lots 0''], storage = Map.empty\<rparr>,
      ''E'' \<mapsto> \<lparr>address = ''E'', code = [], storage = Map.empty\<rparr>,
      ''N'' \<mapsto> \<lparr>address = ''N'', code = [''CALL E -5 0''], storage = Map.empty\<rparr>,
      ''M'' \<mapsto> \<lparr>address = ''M'', code = [''CALL A -5 0''], storage = Map.empty\<rparr>]"

section \<open>Termination of the interpreter\<close>

text \<open>
  A frame can only run a callee after it has paid 10 for \<^verbatim>\<open>CALL\<close> and found the gas amount
  no larger than what is left, and a completed call never gives the caller more gas
  than it had: the remaining gas, cut off at zero, decreases from a frame to its callee
  and never grows along the loop, where the rest of the code gets shorter.
\<close>

lemma OPCOST_nonneg: "0 \<le> get_or OPCOST op 1"
  by (simp add: get_or_def OPCOST_def)

lemma charge_Inr:
  "charge op fr = Inr b \<Longrightarrow>
     gas_remaining b = gas_remaining fr - get_or OPCOST op 1 \<and> 0 \<le> gas_remaining b
     \<and> stack b = stack fr"
  by (auto simp: charge_def Let_def split: if_splits)

lemma charge_le: "charge op fr = Inr b \<Longrightarrow> gas_remaining b \<le> gas_remaining fr"
  using charge_Inr [of op fr b] OPCOST_nonneg [of op] by simp

lemma keeps_gas_push: "keeps_gas fr (op_push parts fr sh)"
  by (simp add: keeps_gas_def op_push_def split: option.splits)

lemma keeps_gas_pop: "keeps_gas fr (op_pop fr sh)"
  by (simp add: keeps_gas_def op_pop_def)

lemma keeps_gas_arith: "keeps_gas fr (op_arith op fr sh)"
  by (simp add: keeps_gas_def op_arith_def Let_def)

lemma keeps_gas_load: "keeps_gas fr (op_load parts a fr sh)"
  by (simp add: keeps_gas_def op_load_def Let_def)

lemma keeps_gas_store: "keeps_gas fr (op_store parts a fr sh)"
  by (simp add: keeps_gas_def op_store_def Let_def)

lemma keeps_gas_log: "keeps_gas fr (op_log a fr sh)"
  by (simp add: keeps_gas_def op_log_def Let_def)

lemma keeps_gas_call: "keeps_gas fr (op_call parts fr)"
  by (simp add: keeps_gas_def op_call_def Let_def split: option.splits)

lemma keeps_gas_dispatch: "keeps_gas fr (dispatch op parts a fr sh)"
  unfolding dispatch_def
  by (simp add: keeps_gas_push keeps_gas_pop keeps_gas_arith keeps_gas_load keeps_gas_store
        keeps_gas_log keeps_gas_call)
     (simp add: keeps_gas_def)

lemma dispatch_Continue_gas:
  "dispatch op parts a b sh = Continue fr2 sh2 \<Longrightarrow> gas_remaining fr2 = gas_remaining b"
  using keeps_gas_dispatch [of b op parts a sh] by (simp add: keeps_gas_def)

lemma dispatch_Invoke_gas:
  "dispatch op parts a b sh = Invoke callee g args fr2 \<Longrightarrow>
     g \<le> gas_remaining b \<and> gas_remaining fr2 = gas_remaining b - g"
  using keeps_gas_dispatch [of b op parts a sh] by (simp add: keeps_gas_def)

lemma op_push_not_Invoke: "op_push parts fr sh \<noteq> Invoke c g args fr2"
  by (simp add: op_push_def split: option.splits)

lemma op_pop_not_Invoke: "op_pop fr sh \<noteq> Invoke c g args fr2"
  by (simp add: op_pop_def)

lemma op_arith_not_Invoke: "op_arith op fr sh \<noteq> Invoke c g args fr2"
  by (simp add: op_arith_def Let_def)

lemma op_load_not_Invoke: "op_load parts a fr sh \<noteq> Invoke c g args fr2"
  by (simp add: op_load_def Let_def)

lemma op_store_not_Invoke: "op_store parts a fr sh \<noteq> Invoke c g args fr2"
  by (simp add: op_store_def Let_def)

lemma op_log_not_Invoke: "op_log a fr sh \<noteq> Invoke c g args fr2"
  by (simp add: op_log_def Let_def)

lemma dispatch_Invoke_CALL:
  "dispatch op parts a b sh = Invoke callee g args fr2 \<Longrightarrow> op = ''CALL''"
  unfolding dispatch_def
  by (simp add: op_push_not_Invoke op_pop_not_Invoke op_arith_not_Invoke op_load_not_Invoke
        op_store_not_Invoke op_log_not_Invoke split: if_splits)

text \<open>Partial correctness, on the domain of the recursion: a frame that returns has used a
  non-negative amount of gas.\<close>

lemma gas_partial:
  "exec_contract_frame_exec_loop_dom (Inl (w, a, c, g, st, sh)) \<Longrightarrow>
     exec_contract_frame w a c g st sh = (Inr (ret, used, oc), sh') \<Longrightarrow> 0 \<le> used"
  "exec_contract_frame_exec_loop_dom (Inr (w, a, cd, fr, sh)) \<Longrightarrow>
     exec_loop w a cd fr sh = (Inr fr', sh') \<Longrightarrow> gas_remaining fr' \<le> gas_remaining fr"
proof (induction w a c g st sh and w a cd fr sh arbitrary: ret used oc sh' and fr' sh'
       rule: exec_contract_frame_exec_loop.pinduct)
  case (1 w contract_addr caller gas_limit stk sh)
  note eq = exec_contract_frame.psimps [OF "1.hyps"]
  from "1.prems" obtain ct ls where ct: "w contract_addr = Some ct"
    and ls: "snapshot sh contract_addr = Some ls"
    by (simp add: eq split: option.splits)
  from "1.prems" ct ls obtain fr where
    lp: "exec_loop w contract_addr (code ct)
           \<lparr>gas_remaining = gas_limit, stack = stk, counts = Map.empty\<rparr> sh = (Inr fr, sh')"
    and fin: "finish gas_limit fr = (ret, used, oc)"
    by (simp add: eq split: prod.splits sum.splits)
  from "1.IH" [OF ct ls lp] have "gas_remaining fr \<le> gas_limit" by simp
  with fin show ?case by (auto simp: finish_def Let_def)
next
  case (2 w contract_addr fr sh)
  then show ?case by (simp add: exec_loop.psimps)
next
  case (3 w contract_addr line rest fr sh)
  note eq = exec_loop.psimps(2) [OF "3.hyps"]
  show ?case
  proof (cases "strip line = []")
    case True
    with "3.prems" have "exec_loop w contract_addr rest fr sh = (Inr fr', sh')"
      by (simp add: eq)
    from "3.IH"(1) [OF refl True this] show ?thesis .
  next
    case False
    with "3.prems" obtain p ps where sp: "split (strip line) = p # ps"
      by (cases "split (strip line)") (simp_all add: eq)
    with "3.prems" False obtain fr1 where ch: "charge (upper p) fr = Inr fr1"
      by (cases "charge (upper p) fr") (simp_all add: eq)
    show ?thesis
    proof (cases "dispatch (upper p) (p # ps) contract_addr fr1 sh")
      case (Continue fr2 sh2)
      with False sp ch "3.prems" have "exec_loop w contract_addr rest fr2 sh2 = (Inr fr', sh')"
        by (simp add: eq)
      from "3.IH"(2) [OF refl False sp ch Continue this]
      have "gas_remaining fr' \<le> gas_remaining fr2" .
      with dispatch_Continue_gas [OF Continue] charge_le [OF ch] show ?thesis by simp
    next
      case Return
      with False sp ch "3.prems" have "fr' = fr1" by (simp add: eq)
      with charge_le [OF ch] show ?thesis by simp
    next
      case (Raise e)
      with False sp ch "3.prems" show ?thesis by (simp add: eq)
    next
      case (Invoke callee gas_amount args fr2)
      obtain r1 sh1 where ch1:
        "exec_contract_frame w callee contract_addr gas_amount args sh = (r1, sh1)"
        by (cases "exec_contract_frame w callee contract_addr gas_amount args sh")
      with False sp ch Invoke "3.prems" obtain ret used oc where r1: "r1 = Inr (ret, used, oc)"
        by (cases r1) (auto simp add: eq)
      with ch1 False sp ch Invoke "3.prems"
      have rest: "exec_loop w contract_addr rest
                    (fr2\<lparr>gas_remaining := gas_remaining fr2 + (gas_amount - used),
                         counts := merge_counts (counts fr2) oc,
                         stack := stack fr2 @ [ret]\<rparr>)
                    (sh1\<lparr>trace := trace sh1 @ [Call contract_addr callee gas_amount used ret]\<rparr>)
                  = (Inr fr', sh')"
        by (simp add: eq)
      from "3.IH"(3) [OF refl False sp ch Invoke] ch1 r1 have u: "0 \<le> used" by simp
      from "3.IH"(4) [OF refl False sp ch Invoke ch1 [symmetric] r1 refl refl rest]
      have "gas_remaining fr' \<le> gas_remaining fr2 + (gas_amount - used)" by simp
      with u dispatch_Invoke_gas [OF Invoke] charge_le [OF ch] show ?thesis by simp
    qed
  qed
qed

termination exec_contract_frame
proof (relation "inv_image (less_than <*lex*> less_than) (case_sum frame_measure loop_measure)")
  show "wf (inv_image (less_than <*lex*> less_than) (case_sum frame_measure loop_measure))"
    by (intro wf_inv_image wf_lex_prod wf_less_than)
next
  fix w :: world and contract_addr caller gas_limit stk sh x2 x2a
  assume "w contract_addr = Some x2"
  then show "(Inr (w, contract_addr, code x2,
             \<lparr>gas_remaining = gas_limit, stack = stk, counts = Map.empty\<rparr>, sh),
        Inl (w, contract_addr, caller, gas_limit, stk, sh))
       \<in> inv_image (less_than <*lex*> less_than) (case_sum frame_measure loop_measure)"
    by (simp add: frame_measure_def loop_measure_def)
next
  fix w :: world and contract_addr line rest fr sh
  show "(Inr (w, contract_addr, rest, fr, sh), Inr (w, contract_addr, line # rest, fr, sh))
       \<in> inv_image (less_than <*lex*> less_than) (case_sum frame_measure loop_measure)"
    by (simp add: loop_measure_def)
next
  fix w :: world and contract_addr line rest fr sh p ps b fr2 sh2
  assume ch: "charge (upper p) fr = Inr b"
    and d: "dispatch (upper p) (p # ps) contract_addr b sh = Continue fr2 sh2"
  from dispatch_Continue_gas [OF d] charge_le [OF ch]
  have "nat (gas_remaining fr2) \<le> nat (gas_remaining fr)" by simp
  then show "(Inr (w, contract_addr, rest, fr2, sh2), Inr (w, contract_addr, line # rest, fr, sh))
       \<in> inv_image (less_than <*lex*> less_than) (case_sum frame_measure loop_measure)"
    by (auto simp add: loop_measure_def)
next
  fix w :: world and contract_addr line rest fr sh p ps b callee g args fr2
  assume ch: "charge (upper p) fr = Inr b"
    and d: "dispatch (upper p) (p # ps) contract_addr b sh = Invoke callee g args fr2"
  from dispatch_Invoke_CALL [OF d] dispatch_Invoke_gas [OF d]
  have "upper p = ''CALL''" and "g \<le> gas_remaining b" by simp_all
  with charge_Inr [OF ch] have "nat g < nat (gas_remaining fr)"
    by (simp add: get_or_def OPCOST_def)
  then show "(Inl (w, callee, contract_addr, g, args, sh),
        Inr (w, contract_addr, line # rest, fr, sh))
       \<in> inv_image (less_than <*lex*> less_than) (case_sum frame_measure loop_measure)"
    by (simp add: loop_measure_def frame_measure_def)
next
  fix w :: world and contract_addr line rest fr sh p ps b callee g args fr2 xa y ba ret ya used oc
  assume ch: "charge (upper p) fr = Inr b"
    and d: "dispatch (upper p) (p # ps) contract_addr b sh = Invoke callee g args fr2"
    and r: "(xa, y) = exec_contract_frame w callee contract_addr g args sh"
       "xa = Inr ba" "(ret, ya) = ba" "(used, oc) = ya"
    and dom: "exec_contract_frame_exec_loop_dom (Inl (w, callee, contract_addr, g, args, sh))"
  from r have "exec_contract_frame w callee contract_addr g args sh = (Inr (ret, used, oc), y)"
    by simp
  from gas_partial(1) [OF dom this] have "0 \<le> used" .
  with dispatch_Invoke_gas [OF d] charge_le [OF ch]
  have "nat (gas_remaining fr2 + (g - used)) \<le> nat (gas_remaining fr)" by simp
  then show "(Inr (w, contract_addr, rest,
             fr2\<lparr>gas_remaining := gas_remaining fr2 + (g - used),
                   counts := merge_counts (counts fr2) oc,
                   stack := stack fr2 @ [ret]\<rparr>,
             y\<lparr>trace := trace y @ [Call contract_addr callee g used ret]\<rparr>),
        Inr (w, contract_addr, line # rest, fr, sh))
       \<in> inv_image (less_than <*lex*> less_than) (case_sum frame_measure loop_measure)"
    by (auto simp add: loop_measure_def)
qed

section \<open>Runs of the interpreter\<close>

text \<open>From here on the defining equations are used through the lemmas below, one for each
  way an instruction can end.\<close>

declare exec_contract_frame.simps [simp del]
declare exec_loop.simps(2) [simp del]

lemma exec_loop_blank:
  "strip line = [] \<Longrightarrow> exec_loop w a (line # rest) fr sh = exec_loop w a rest fr sh"
  by (simp add: exec_loop.simps(2))

lemma exec_loop_no_token:
  "strip line \<noteq> [] \<Longrightarrow> split (strip line) = [] \<Longrightarrow>
     exec_loop w a (line # rest) fr sh = (Inl IndexError, sh)"
  by (simp add: exec_loop.simps(2))

lemma exec_loop_charge_fails:
  "strip line \<noteq> [] \<Longrightarrow> split (strip line) = p # ps \<Longrightarrow> charge (upper p) fr = Inl e \<Longrightarrow>
     exec_loop w a (line # rest) fr sh = (Inl e, sh)"
  by (simp add: exec_loop.simps(2))

lemma exec_loop_Continue:
  "strip line \<noteq> [] \<Longrightarrow> split (strip line) = p # ps \<Longrightarrow> charge (upper p) fr = Inr fr1 \<Longrightarrow>
   dispatch (upper p) (p # ps) a fr1 sh = Continue fr2 sh2 \<Longrightarrow>
     exec_loop w a (line # rest) fr sh = exec_loop w a rest fr2 sh2"
  by (simp add: exec_loop.simps(2))

lemma exec_loop_Return:
  "strip line \<noteq> [] \<Longrightarrow> split (strip line) = p # ps \<Longrightarrow> charge (upper p) fr = Inr fr1 \<Longrightarrow>
   dispatch (upper p) (p # ps) a fr1 sh = Return \<Longrightarrow>
     exec_loop w a (line # rest) fr sh = (Inr fr1, sh)"
  by (simp add: exec_loop.simps(2))

lemma exec_loop_Raise:
  "strip line \<noteq> [] \<Longrightarrow> split (strip line) = p # ps \<Longrightarrow> charge (upper p) fr = Inr fr1 \<Longrightarrow>
   dispatch (upper p) (p # ps) a fr1 sh = Raise e \<Longrightarrow>
     exec_loop w a (line # rest) fr sh = (Inl e, sh)"
  by (simp add: exec_loop.simps(2))

lemma exec_loop_Invoke_raises:
  "strip line \<noteq> [] \<Longrightarrow> split (strip line) = p # ps \<Longrightarrow> charge (upper p) fr = Inr fr1 \<Longrightarrow>
   dispatch (upper p) (p # ps) a fr1 sh = Invoke callee g args fr2 \<Longrightarrow>
   exec_contract_frame w callee a g args sh = (Inl e, sh1) \<Longrightarrow>
     exec_loop w a (line # rest) fr sh = (Inl e, sh1)"
  by (simp add: exec_loop.simps(2))

lemma exec_loop_Invoke_returns:
  "strip line \<noteq> [] \<Longrightarrow> split (strip line) = p # ps \<Longrightarrow> charge (upper p) fr = Inr fr1 \<Longrightarrow>
   dispatch (upper p) (p # ps) a fr1 sh = Invoke callee g args fr2 \<Longrightarrow>
   exec_contract_frame w callee a g args sh = (Inr (ret, used, oc), sh1) \<Longrightarrow>
     exec_loop w a (line # rest) fr sh =
       exec_loop w a rest
         (fr2\<lparr>gas_remaining := gas_remaining fr2 + (g - used),
              counts := merge_counts (counts fr2) oc,
              stack := stack fr2 @ [ret]\<rparr>)
         (sh1\<lparr>trace := trace sh1 @ [Call a callee g used ret]\<rparr>)"
  by (simp add: exec_loop.simps(2))


lemma exec_induct_raw:
  fixes P :: "world \<Rightarrow> string \<Rightarrow> string \<Rightarrow> int \<Rightarrow> int list \<Rightarrow> shared
                \<Rightarrow> (py_exception + frame_result) \<times> shared \<Rightarrow> bool"
    and Q :: "world \<Rightarrow> string \<Rightarrow> string list \<Rightarrow> frame \<Rightarrow> shared
                \<Rightarrow> (py_exception + frame) \<times> shared \<Rightarrow> bool"
  assumes not_found: "\<And>w a c g st sh. w a = None \<Longrightarrow>
      P w a c g st sh (Inl (VMExecutionError (ContractNotFound a)), sh)"
    and key_error: "\<And>w a c g st sh ct. w a = Some ct \<Longrightarrow> snapshot sh a = None \<Longrightarrow>
      P w a c g st sh (Inl KeyError, sh)"
    and frame_raises: "\<And>w a c g st sh ct ls e sh'. w a = Some ct \<Longrightarrow> snapshot sh a = Some ls \<Longrightarrow>
      exec_loop w a (code ct) \<lparr>gas_remaining = g, stack = st, counts = Map.empty\<rparr> sh = (Inl e, sh') \<Longrightarrow>
      Q w a (code ct) \<lparr>gas_remaining = g, stack = st, counts = Map.empty\<rparr> sh (Inl e, sh') \<Longrightarrow>
      P w a c g st sh (Inl e, sh')"
    and frame_returns: "\<And>w a c g st sh ct ls fr sh'. w a = Some ct \<Longrightarrow> snapshot sh a = Some ls \<Longrightarrow>
      exec_loop w a (code ct) \<lparr>gas_remaining = g, stack = st, counts = Map.empty\<rparr> sh = (Inr fr, sh') \<Longrightarrow>
      Q w a (code ct) \<lparr>gas_remaining = g, stack = st, counts = Map.empty\<rparr> sh (Inr fr, sh') \<Longrightarrow>
      P w a c g st sh (Inr (finish g fr), sh')"
    and nil: "\<And>w a fr sh. Q w a [] fr sh (Inr fr, sh)"
    and blank: "\<And>w a line rest fr sh res. strip line = [] \<Longrightarrow>
      exec_loop w a rest fr sh = res \<Longrightarrow> Q w a rest fr sh res \<Longrightarrow>
      Q w a (line # rest) fr sh res"
    and no_token: "\<And>w a line rest fr sh. strip line \<noteq> [] \<Longrightarrow> split (strip line) = [] \<Longrightarrow>
      Q w a (line # rest) fr sh (Inl IndexError, sh)"
    and charge_fails: "\<And>w a line rest fr sh p ps e. strip line \<noteq> [] \<Longrightarrow>
      split (strip line) = p # ps \<Longrightarrow> charge (upper p) fr = Inl e \<Longrightarrow>
      Q w a (line # rest) fr sh (Inl e, sh)"
    and continue: "\<And>w a line rest fr sh p ps fr1 fr2 sh2 res. strip line \<noteq> [] \<Longrightarrow>
      split (strip line) = p # ps \<Longrightarrow> charge (upper p) fr = Inr fr1 \<Longrightarrow>
      dispatch (upper p) (p # ps) a fr1 sh = Continue fr2 sh2 \<Longrightarrow>
      exec_loop w a rest fr2 sh2 = res \<Longrightarrow> Q w a rest fr2 sh2 res \<Longrightarrow>
      Q w a (line # rest) fr sh res"
    and returns: "\<And>w a line rest fr sh p ps fr1. strip line \<noteq> [] \<Longrightarrow>
      split (strip line) = p # ps \<Longrightarrow> charge (upper p) fr = Inr fr1 \<Longrightarrow>
      dispatch (upper p) (p # ps) a fr1 sh = Return \<Longrightarrow>
      Q w a (line # rest) fr sh (Inr fr1, sh)"
    and raises: "\<And>w a line rest fr sh p ps fr1 e. strip line \<noteq> [] \<Longrightarrow>
      split (strip line) = p # ps \<Longrightarrow> charge (upper p) fr = Inr fr1 \<Longrightarrow>
      dispatch (upper p) (p # ps) a fr1 sh = Raise e \<Longrightarrow>
      Q w a (line # rest) fr sh (Inl e, sh)"
    and call_raises: "\<And>w a line rest fr sh p ps fr1 callee g args fr2 e sh1. strip line \<noteq> [] \<Longrightarrow>
      split (strip line) = p # ps \<Longrightarrow> charge (upper p) fr = Inr fr1 \<Longrightarrow>
      dispatch (upper p) (p # ps) a fr1 sh = Invoke callee g args fr2 \<Longrightarrow>
      exec_contract_frame w callee a g args sh = (Inl e, sh1) \<Longrightarrow>
      P w callee a g args sh (Inl e, sh1) \<Longrightarrow>
      Q w a (line # rest) fr sh (Inl e, sh1)"
    and call_returns: "\<And>w a line rest fr sh p ps fr1 callee g args fr2 ret used oc sh1 res.
      strip line \<noteq> [] \<Longrightarrow>
      split (strip line) = p # ps \<Longrightarrow> charge (upper p) fr = Inr fr1 \<Longrightarrow>
      dispatch (upper p) (p # ps) a fr1 sh = Invoke callee g args fr2 \<Longrightarrow>
      exec_contract_frame w callee a g args sh = (Inr (ret, used, oc), sh1) \<Longrightarrow>
      P w callee a g args sh (Inr (ret, used, oc), sh1) \<Longrightarrow>
      exec_loop w a rest
         (fr2\<lparr>gas_remaining := gas_remaining fr2 + (g - used),
              counts := merge_counts (counts fr2) oc,
              stack := stack fr2 @ [ret]\<rparr>)
         (sh1\<lparr>trace := trace sh1 @ [Call a callee g used ret]\<rparr>) = res \<Longrightarrow>
      Q w a rest
         (fr2\<lparr>gas_remaining := gas_remaining fr2 + (g - used),
              counts := merge_counts (counts fr2) oc,
              stack := stack fr2 @ [ret]\<rparr>)
         (sh1\<lparr>trace := trace sh1 @ [Call a callee g used ret]\<rparr>) res \<Longrightarrow>
      Q w a (line # rest) fr sh res"
  shows "exec_contract_frame w a c g st sh = res \<Longrightarrow> P w a c g st sh res"
    and "exec_loop w a cd fr sh = res' \<Longrightarrow> Q w a cd fr sh res'"
proof (induction w a c g st sh and w a cd fr sh arbitrary: res and res'
       rule: exec_contract_frame_exec_loop.induct)
  case (1 w a c g st sh)
  show ?case
  proof (cases "w a")
    case None
    with "1.prems" have "res = (Inl (VMExecutionError (ContractNotFound a)), sh)"
      by (simp add: exec_contract_frame.simps)
    with not_found [of w a c g st sh] None show ?thesis by simp
  next
    case (Some ct)
    show ?thesis
    proof (cases "snapshot sh a")
      case None
      with Some "1.prems" have "res = (Inl KeyError, sh)"
        by (simp add: exec_contract_frame.simps)
      with key_error [of w a ct sh c g st] Some None show ?thesis by simp
    next
      case (Some ls)
      note ct = \<open>w a = Some ct\<close>
      obtain r sh' where lp:
        "exec_loop w a (code ct) \<lparr>gas_remaining = g, stack = st, counts = Map.empty\<rparr> sh = (r, sh')"
        by (cases "exec_loop w a (code ct) \<lparr>gas_remaining = g, stack = st, counts = Map.empty\<rparr> sh")
      note ih = "1.IH" [OF ct Some lp]
      show ?thesis
      proof (cases r)
        case (Inl e)
        with lp ct Some "1.prems" have "res = (Inl e, sh')"
          by (simp add: exec_contract_frame.simps)
        with frame_raises [of w a ct sh ls g st e sh' c] ct Some lp ih Inl show ?thesis by simp
      next
        case (Inr fr)
        with lp ct Some "1.prems" have "res = (Inr (finish g fr), sh')"
          by (simp add: exec_contract_frame.simps)
        with frame_returns [of w a ct sh ls g st fr sh' c] ct Some lp ih Inr show ?thesis by simp
      qed
    qed
  qed
next
  case (2 w a fr sh)
  from "2.prems" nil [of w a fr sh] show ?case by auto
next
  case (3 w a line rest fr sh)
  show ?case
  proof (cases "strip line = []")
    case True
    from "3.prems" have r: "exec_loop w a rest fr sh = res'"
      by (simp add: exec_loop_blank [OF True])
    from blank [OF True r "3.IH"(1) [OF refl True r]] show ?thesis .
  next
    case False
    show ?thesis
    proof (cases "split (strip line)")
      case Nil
      from "3.prems" have "res' = (Inl IndexError, sh)"
        by (simp add: exec_loop_no_token [OF False Nil])
      then show ?thesis using no_token [OF False Nil, of w a rest fr sh] by simp
    next
      case (Cons p ps)
      show ?thesis
      proof (cases "charge (upper p) fr")
        case (Inl e)
        from "3.prems" have "res' = (Inl e, sh)"
          by (simp add: exec_loop_charge_fails [OF False Cons Inl])
        then show ?thesis using charge_fails [OF False Cons Inl, of w a rest sh] by simp
      next
        case (Inr fr1)
        show ?thesis
        proof (cases "dispatch (upper p) (p # ps) a fr1 sh")
          case (Continue fr2 sh2)
          from "3.prems" have r: "exec_loop w a rest fr2 sh2 = res'"
            by (simp add: exec_loop_Continue [OF False Cons Inr Continue])
          from continue [OF False Cons Inr Continue r "3.IH"(2) [OF refl False Cons Inr Continue r]]
          show ?thesis .
        next
          case Return
          from "3.prems" have "res' = (Inr fr1, sh)"
            by (simp add: exec_loop_Return [OF False Cons Inr Return])
          then show ?thesis using returns [OF False Cons Inr Return, of w rest] by simp
        next
          case (Raise e)
          from "3.prems" have "res' = (Inl e, sh)"
            by (simp add: exec_loop_Raise [OF False Cons Inr Raise])
          then show ?thesis using raises [OF False Cons Inr Raise, of w rest] by simp
        next
          case (Invoke callee g args fr2)
          obtain r1 sh1 where c1: "exec_contract_frame w callee a g args sh = (r1, sh1)"
            by (cases "exec_contract_frame w callee a g args sh")
          note ihP = "3.IH"(3) [OF refl False Cons Inr Invoke c1]
          show ?thesis
          proof (cases r1)
            case (Inl e)
            with c1 have c2: "exec_contract_frame w callee a g args sh = (Inl e, sh1)" by simp
            with "3.prems" have "res' = (Inl e, sh1)"
              by (simp add: exec_loop_Invoke_raises [OF False Cons \<open>charge (upper p) fr = Inr fr1\<close> Invoke c2])
            with call_raises [OF False Cons \<open>charge (upper p) fr = Inr fr1\<close> Invoke c2, of rest]
              ihP Inl show ?thesis by simp
          next
            case (Inr tup)
            obtain ret used oc where tup: "tup = (ret, used, oc)" by (cases tup)
            with c1 Inr have c2: "exec_contract_frame w callee a g args sh = (Inr (ret, used, oc), sh1)"
              by simp
            from "3.prems" have r: "exec_loop w a rest
               (fr2\<lparr>gas_remaining := gas_remaining fr2 + (g - used),
                    counts := merge_counts (counts fr2) oc,
                    stack := stack fr2 @ [ret]\<rparr>)
               (sh1\<lparr>trace := trace sh1 @ [Call a callee g used ret]\<rparr>) = res'"
              by (simp add: exec_loop_Invoke_returns [OF False Cons \<open>charge (upper p) fr = Inr fr1\<close> Invoke c2])
            from ihP Inr tup have p: "P w callee a g args sh (Inr (ret, used, oc), sh1)" by simp
            note ihQ = "3.IH"(4) [OF refl False Cons \<open>charge (upper p) fr = Inr fr1\<close> Invoke
                c2 [symmetric] refl refl refl r]
            from call_returns [OF False Cons \<open>charge (upper p) fr = Inr fr1\<close> Invoke c2 p r ihQ]
            show ?thesis .
          qed
        qed
      qed
    qed
  qed
qed

lemmas exec_induct [consumes 1, case_names not_found key_error frame_raises frame_returns
    nil blank no_token charge_fails continue returns raises call_raises call_returns] =
  exec_induct_raw [rotated 13]

section \<open>Invariants of a run\<close>

subsection \<open>The shared objects\<close>

text \<open>One instruction other than \<^verbatim>\<open>CALL\<close> leaves the shared objects as they are, writes one
  key of the running contract's staged storage, or appends one log event.\<close>

lemma shared_step_push: "shared_step a sh (op_push parts fr sh)"
  by (simp add: shared_step_def op_push_def split: option.splits)

lemma shared_step_pop: "shared_step a sh (op_pop fr sh)"
  by (simp add: shared_step_def op_pop_def)

lemma shared_step_arith: "shared_step a sh (op_arith op fr sh)"
  by (simp add: shared_step_def op_arith_def Let_def)

lemma shared_step_load: "shared_step a sh (op_load parts a fr sh)"
  by (simp add: shared_step_def op_load_def Let_def)

lemma shared_step_store: "shared_step a sh (op_store parts a fr sh)"
  by (auto simp add: shared_step_def op_store_def Let_def)

lemma shared_step_log: "shared_step a sh (op_log a fr sh)"
  by (auto simp add: shared_step_def op_log_def Let_def)

lemma shared_step_call: "shared_step a sh (op_call parts fr)"
  by (simp add: shared_step_def op_call_def Let_def split: option.splits)

lemma shared_step_dispatch: "shared_step a sh (dispatch op parts a fr sh)"
  unfolding dispatch_def
  by (simp add: shared_step_push shared_step_pop shared_step_arith shared_step_load
        shared_step_store shared_step_log shared_step_call)
     (simp add: shared_step_def)

lemma dispatch_Continue_shared:
  assumes "dispatch op parts a fr sh = Continue fr2 sh2"
  shows "sh2 = sh
     \<or> (\<exists>k v. sh2 = sh\<lparr>snapshot := (snapshot sh)(a \<mapsto> (get_or (snapshot sh) a Map.empty)(k \<mapsto> v))\<rparr>)
     \<or> (\<exists>v. sh2 = sh\<lparr>trace := trace sh @ [Log a v]\<rparr>)"
  using shared_step_dispatch [of a sh op parts fr] assms by (simp add: shared_step_def)


lemma dispatch_Continue_dom:
  "dispatch op parts a fr sh = Continue fr2 sh2 \<Longrightarrow> a \<in> dom (snapshot sh) \<Longrightarrow>
     dom (snapshot sh2) = dom (snapshot sh)"
  by (drule dispatch_Continue_shared) (auto split: if_splits)


text \<open>The snapshot keeps its addresses.\<close>

lemma exec_keeps_snapshot_dom:
  "exec_contract_frame w a c g st sh = res \<Longrightarrow> dom (snapshot (snd res)) = dom (snapshot sh)"
  "exec_loop w a cd fr sh = res' \<Longrightarrow> a \<in> dom (snapshot sh) \<Longrightarrow>
     dom (snapshot (snd res')) = dom (snapshot sh)"
proof (induction w a c g st sh res and w a cd fr sh res' rule: exec_induct)
  case (frame_raises w a c g st sh ct ls e sh')
  then show ?case by auto
next
  case (frame_returns w a c g st sh ct ls fr sh')
  then show ?case by auto
next
  case (continue w a line rest fr sh p ps fr1 fr2 sh2 res)
  with dispatch_Continue_dom [OF continue(4)] show ?case by simp
next
  case (call_returns w a line rest fr sh p ps fr1 callee g args fr2 ret used oc sh1 res)
  then show ?case by simp
qed simp_all

subsection \<open>Lines and tokens\<close>

text \<open>A line that is not blank has a first token, so \<^verbatim>\<open>parts[0]\<close> never fails.\<close>

lemma split_from_Nil_iff: "split_from cur s = [] \<longleftrightarrow> cur = [] \<and> (\<forall>c\<in>set s. isspace c)"
  by (induction s arbitrary: cur) auto

lemma strip_has_token:
  assumes "strip s \<noteq> []"
  shows "split (strip s) \<noteq> []"
proof -
  let ?t = "dropWhile isspace (rev (dropWhile isspace s))"
  from assms have t: "?t \<noteq> []" by (simp add: strip_def)
  then have "\<not> isspace (hd ?t)" by (rule hd_dropWhile)
  moreover from t have "hd ?t \<in> set (strip s)" by (simp add: strip_def)
  ultimately show ?thesis by (auto simp: split_def split_from_Nil_iff)
qed

subsection \<open>Gas\<close>

text \<open>A frame that returns has used at least 0 and at most its budget, or 0 when the budget
  is negative; along the loop the remaining gas never grows and, once an instruction has
  been charged, is not negative.\<close>

lemma gas_bounds:
  "exec_contract_frame w a c g st sh = res \<Longrightarrow> fst res = Inr (ret, used, oc) \<Longrightarrow>
     0 \<le> used \<and> used \<le> max g 0"
  "exec_loop w a cd fr sh = res' \<Longrightarrow> fst res' = Inr fr' \<Longrightarrow>
     gas_remaining fr' \<le> gas_remaining fr \<and> min (gas_remaining fr) 0 \<le> gas_remaining fr'"
proof (induction w a c g st sh res and w a cd fr sh res' arbitrary: ret used oc and fr'
       rule: exec_induct)
  case (frame_returns w a c g st sh ct ls fr sh')
  from frame_returns.IH [of fr] frame_returns.prems show ?case
    by (auto simp: finish_def Let_def)
next
  case (continue w a line rest fr sh p ps fr1 fr2 sh2 res)
  from continue.IH [OF continue.prems] dispatch_Continue_gas [OF continue.hyps(4)]
    charge_Inr [OF continue.hyps(3)] OPCOST_nonneg [of "upper p"]
  show ?case by auto
next
  case (returns w a line rest fr sh p ps fr1)
  with charge_Inr [OF returns.hyps(3)] OPCOST_nonneg [of "upper p"] show ?case by auto
next
  case (call_returns w a line rest fr sh p ps fr1 callee g args fr2 ret used oc sh1 res)
  from call_returns.IH(1) [of ret used oc] have u: "0 \<le> used" "used \<le> max g 0" by simp_all
  from call_returns.IH(2) [OF call_returns.prems] u dispatch_Invoke_gas [OF call_returns.hyps(4)]
    charge_Inr [OF call_returns.hyps(3)] OPCOST_nonneg [of "upper p"]
  show ?case by auto
qed simp_all

text \<open>Every \<open>call\<close> event of the trace records such an amount.\<close>

lemma trace_gas_accounted:
  "exec_contract_frame w a c g st sh = res \<Longrightarrow> list_all gas_accounted (trace sh) \<Longrightarrow>
     list_all gas_accounted (trace (snd res))"
  "exec_loop w a cd fr sh = res' \<Longrightarrow> list_all gas_accounted (trace sh) \<Longrightarrow>
     list_all gas_accounted (trace (snd res'))"
proof (induction w a c g st sh res and w a cd fr sh res' rule: exec_induct)
  case (continue w a line rest fr sh p ps fr1 fr2 sh2 res)
  from dispatch_Continue_shared [OF continue.hyps(4)] continue.prems
  have "list_all gas_accounted (trace sh2)" by (auto simp: gas_accounted_def [of "Log a v" for a v])
  with continue.IH show ?case by simp
next
  case (call_returns w a line rest fr sh p ps fr1 callee g args fr2 ret used oc sh1 res)
  from gas_bounds(1) [OF call_returns.hyps(5), of ret used oc]
  have "gas_accounted (Call a callee g used ret)" by (auto simp: gas_accounted_def)
  with call_returns.IH call_returns.prems show ?case by simp
qed simp_all

text \<open>With a negative budget nothing can be charged.\<close>

lemma charge_negative:
  "gas_remaining fr < 0 \<Longrightarrow> charge op fr = Inl (VMExecutionError OutOfGas)"
  using OPCOST_nonneg [of op] by (simp add: charge_def Let_def)

lemma exec_loop_negative_gas:
  "gas_remaining fr < 0 \<Longrightarrow>
     exec_loop w a cd fr sh =
       (if \<forall>l\<in>set cd. strip l = [] then (Inr fr, sh) else (Inl (VMExecutionError OutOfGas), sh))"
proof (induction cd)
  case Nil
  then show ?case by simp
next
  case (Cons line rest)
  show ?case
  proof (cases "strip line = []")
    case True
    with Cons show ?thesis by (simp add: exec_loop_blank)
  next
    case False
    with strip_has_token obtain p ps where sp: "split (strip line) = p # ps"
      by (cases "split (strip line)") auto
    from exec_loop_charge_fails [OF False sp charge_negative [OF Cons.prems]] False
    show ?thesis by simp
  qed
qed

lemma charge_CALL:
  "charge ''CALL'' fr = Inr fr1 \<Longrightarrow>
     gas_remaining fr1 = gas_remaining fr - 10 \<and> 0 \<le> gas_remaining fr1
     \<and> stack fr1 = stack fr
     \<and> counts fr1 = (counts fr)(''CALL'' \<mapsto> get_or (counts fr) ''CALL'' 0 + 1)"
  by (auto simp: charge_def Let_def get_or_def OPCOST_def split: if_splits)

lemma merge_counts_empty: "merge_counts mine Map.empty = mine"
  by (simp add: merge_counts_def)

lemma merge_counts_adds:
  "get_or (merge_counts mine child) k 0 = get_or mine k 0 + get_or child k 0"
  by (simp add: merge_counts_def get_or_def split: option.splits)

subsection \<open>Exceptions\<close>

lemma raisedD: "raised X = Some e \<Longrightarrow> \<exists>s. X = (Inl e, s)"
  by (cases X; cases "fst X") (auto simp: raised_def)

lemma returnedD: "returned X = Some r \<Longrightarrow> \<exists>s. X = (Inr r, s)"
  by (cases X; cases "fst X") (auto simp: returned_def)

text \<open>No \<^verbatim>\<open>KeyError\<close> and no \<^verbatim>\<open>IndexError\<close>: on a snapshot that has every address of the world,
  a frame raises its own errors or the \<^verbatim>\<open>ValueError\<close> of \<^verbatim>\<open>int\<close>, and the latter is all that can
  leave \<open>execute_transaction\<close>.\<close>

lemma raises_in_band_dispatch: "raises_in_band (dispatch op parts a fr sh)"
  by (simp add: dispatch_def raises_in_band_def op_push_def op_pop_def op_arith_def
        op_load_def op_store_def op_log_def op_call_def Let_def split: option.splits)

lemma dispatch_Raise_in_band: "dispatch op parts a fr sh = Raise e \<Longrightarrow> in_band e"
  using raises_in_band_dispatch [of op parts a fr sh] by (simp add: raises_in_band_def)

lemma charge_Inl: "charge op fr = Inl e \<Longrightarrow> e = VMExecutionError OutOfGas"
  by (auto simp: charge_def Let_def split: if_splits)

lemma exec_raises_in_band:
  "exec_contract_frame w a c g st sh = res \<Longrightarrow> dom w \<subseteq> dom (snapshot sh) \<Longrightarrow>
     fst res = Inl e \<Longrightarrow> in_band e"
  "exec_loop w a cd fr sh = res' \<Longrightarrow> dom w \<subseteq> dom (snapshot sh) \<Longrightarrow> a \<in> dom (snapshot sh) \<Longrightarrow>
     fst res' = Inl e \<Longrightarrow> in_band e"
proof (induction w a c g st sh res and w a cd fr sh res' arbitrary: e and e rule: exec_induct)
  case (not_found w a c g st sh)
  then show ?case by auto
next
  case (key_error w a c g st sh ct)
  then show ?case by auto
next
  case (frame_raises w a c g st sh ct ls e sh')
  then show ?case by auto
next
  case (frame_returns w a c g st sh ct ls fr sh')
  then show ?case by simp
next
  case (nil w a fr sh)
  then show ?case by simp
next
  case (blank w a line rest fr sh res)
  then show ?case by simp
next
  case (no_token w a line rest fr sh)
  with strip_has_token show ?case by simp
next
  case (charge_fails w a line rest fr sh p ps e)
  with charge_Inl [OF charge_fails.hyps(3)] show ?case by auto
next
  case (continue w a line rest fr sh p ps fr1 fr2 sh2 res)
  from dispatch_Continue_dom [OF continue.hyps(4) continue.prems(2)] continue.prems
  have "dom w \<subseteq> dom (snapshot sh2)" "a \<in> dom (snapshot sh2)" by simp_all
  with continue.IH continue.prems show ?case by simp
next
  case (returns w a line rest fr sh p ps fr1)
  then show ?case by simp
next
  case (raises w a line rest fr sh p ps fr1 e)
  with dispatch_Raise_in_band [OF raises.hyps(4)] show ?case by simp
next
  case (call_raises w a line rest fr sh p ps fr1 callee g args fr2 e sh1)
  then show ?case by simp
next
  case (call_returns w a line rest fr sh p ps fr1 callee g args fr2 ret used oc sh1 res)
  from exec_keeps_snapshot_dom(1) [OF call_returns.hyps(5)]
  have "dom (snapshot sh1) = dom (snapshot sh)" by simp
  with call_returns.IH(2) call_returns.prems show ?case by simp
qed

lemma only_ValueError_escapes:
  assumes "raised (execute_transaction w to_addr caller gas_limit input_args start stop) = Some e"
  shows "e = ValueError"
proof -
  obtain out sh' where run:
    "exec_contract_frame w to_addr caller gas_limit input_args (stage w) = (out, sh')"
    by (cases "exec_contract_frame w to_addr caller gas_limit input_args (stage w)")
  have "dom w \<subseteq> dom (snapshot (stage w))" by (auto simp: stage_def)
  from exec_raises_in_band(1) [OF run this] have ib: "in_band x" if "out = Inl x" for x
    using that by simp
  from assms run show ?thesis
    by (cases out; cases "projl out")
       (auto simp: execute_transaction_def raised_def dest!: ib split: prod.splits)
qed

text \<open>The \<^verbatim>\<open>except VMExecutionError\<close> branch of \<open>execute_transaction\<close>.\<close>

lemma vm_error_result:
  assumes "raised (exec_contract_frame w to_addr caller gas_limit input_args (stage w))
             = Some (VMExecutionError e)"
  shows "\<exists>res. fst (execute_transaction w to_addr caller gas_limit input_args start stop) = Inr res
           \<and> \<not> success res \<and> return res = None \<and> gas_used res = gas_limit
           \<and> op_counts res = Map.empty"
proof -
  from raisedD [OF assms] obtain sh' where
    "exec_contract_frame w to_addr caller gas_limit input_args (stage w)
       = (Inl (VMExecutionError e), sh')" ..
  then show ?thesis by (simp add: execute_transaction_def)
qed

section \<open>The claims\<close>

text \<open>
  \<^bold>\<open>C1\<close> (a failing transaction never raises). The claim does not hold on the code:
  \<^verbatim>\<open>int(parts[1])\<close> in the \<^verbatim>\<open>PUSH\<close> branch and \<^verbatim>\<open>int(parts[2])\<close>, \<^verbatim>\<open>int(parts[3])\<close> in
  the \<^verbatim>\<open>CALL\<close> branch raise \<^verbatim>\<open>ValueError\<close> on a text that is no integer literal, and
  \<open>execute_transaction\<close> catches \<^verbatim>\<open>VMExecutionError\<close> only. The theorem runs the two
  transactions: the contract \<open>P\<close> is \<^verbatim>\<open>["PUSH abc"]\<close>, the contract \<open>Q\<close> is
  \<^verbatim>\<open>["CALL A lots 0"]\<close>; both leave \<open>execute_transaction\<close> as an exception, not as a
  result with \<open>success = False\<close>.
\<close>

theorem non_integer_operand_raises:
  "raised (execute_transaction test_world ''P'' ''alice'' 500 [] 0 1) = Some ValueError
   \<and> raised (execute_transaction test_world ''Q'' ''alice'' 500 [] 0 1) = Some ValueError"
  by code_simp

text \<open>
  \<^bold>\<open>C2\<close> (atomicity). Whenever the root frame of a transaction raises, whatever the
  exception and at whatever call depth it started, the world after
  \<open>execute_transaction\<close> is the world before it: the storage of every contract is
  unchanged, and the staged snapshot, with the writes made before the error, is dropped.
\<close>

theorem failed_transaction_leaves_world:
  assumes "raised (exec_contract_frame w to_addr caller gas_limit input_args (stage w)) = Some e"
  shows "snd (execute_transaction w to_addr caller gas_limit input_args start stop) = w"
proof -
  from raisedD [OF assms] obtain sh' where
    "exec_contract_frame w to_addr caller gas_limit input_args (stage w) = (Inl e, sh')" ..
  then show ?thesis by (cases e) (simp_all add: execute_transaction_def)
qed

text \<open>Witness: \<open>G\<close> writes \<open>y\<close>, calls \<open>F\<close>, which writes \<open>x\<close> and then divides by zero.\<close>

theorem failed_transaction_leaves_world_witness:
  "snd (execute_transaction test_world ''G'' ''alice'' 500 [] 0 1) = test_world"
proof -
  have "raised (exec_contract_frame test_world ''G'' ''alice'' 500 [] (stage test_world))
          = Some (VMExecutionError DivisionByZero)"
    by code_simp
  from failed_transaction_leaves_world [OF this] show ?thesis .
qed




text \<open>
  \<^bold>\<open>C4\<close> (result of a failed transaction). The claim does not hold on the code, for
  the reason of C1: the transaction to \<open>P\<close> fails, its root frame raising the
  \<^verbatim>\<open>ValueError\<close> of \<^verbatim>\<open>int("abc")\<close>, and \<open>execute_transaction\<close> returns no result at all,
  hence none that reports \<open>success = False\<close> and the gas limit as \<open>gas_used\<close>. When the
  failure is a \<^verbatim>\<open>VMExecutionError\<close> the result is as the claim says
  (\<open>vm_error_result\<close> above).
\<close>

theorem failed_transaction_without_result:
  "raised (exec_contract_frame test_world ''P'' ''alice'' 500 [] (stage test_world))
     = Some ValueError
   \<and> map_option success (returned (execute_transaction test_world ''P'' ''alice'' 500 [] 0 1))
     = None
   \<and> map_option gas_used (returned (execute_transaction test_world ''P'' ''alice'' 500 [] 0 1))
     = None"
  by code_simp

text \<open>
  \<^bold>\<open>C5\<close> (gas conservation), as the claim states it: every call uses at most the gas it was
  given. It does not: in the successful transaction to \<open>N\<close> the instruction
  \<^verbatim>\<open>CALL E -5 0\<close> runs the empty contract \<open>E\<close> with a budget of -5; the call completes,
  uses 0, and 0 is more than -5.
\<close>

theorem gas_conservation_counterexample:
  "map_option success (returned (execute_transaction test_world ''N'' ''alice'' 500 [] 0 1))
     = Some True
   \<and> map_option call_trace (returned (execute_transaction test_world ''N'' ''alice'' 500 [] 0 1))
     = Some [Call ''N'' ''E'' (- 5) 0 0]
   \<and> \<not> within_budget (Call ''N'' ''E'' (- 5) 0 0)"
  by code_simp

text \<open>
  \<^bold>\<open>C5\<close>, amended: for every successful transaction, the reported \<open>gas_used\<close> is the gas
  limit minus the gas the root frame has left when its loop ends; and every \<open>call\<close> event
  of its trace records a \<open>gas_used\<close> that is at least 0 and at most \<open>gas_provided\<close> when
  \<open>gas_provided\<close> is not negative, and exactly 0 when it is negative.
\<close>

theorem gas_conservation:
  assumes "fst (execute_transaction w to_addr caller gas_limit input_args start stop) = Inr res"
    and "success res"
  shows "\<exists>ct fr sh'. w to_addr = Some ct
           \<and> exec_loop w to_addr (code ct)
                \<lparr>gas_remaining = gas_limit, stack = input_args, counts = Map.empty\<rparr> (stage w)
              = (Inr fr, sh')
           \<and> gas_used res = gas_limit - gas_remaining fr
           \<and> call_trace res = trace sh'
           \<and> list_all gas_accounted (call_trace res)"
proof -
  obtain out sh' where run:
    "exec_contract_frame w to_addr caller gas_limit input_args (stage w) = (out, sh')"
    by (cases "exec_contract_frame w to_addr caller gas_limit input_args (stage w)")
  with assms obtain ret used oc where out: "out = Inr (ret, used, oc)"
    and res: "gas_used res = used" "call_trace res = trace sh'"
    by (cases out; cases "projl out")
       (auto simp: execute_transaction_def split: prod.splits)
  from run out obtain ct ls where ct: "w to_addr = Some ct"
    and ls: "snapshot (stage w) to_addr = Some ls"
    by (auto simp: exec_contract_frame.simps split: option.splits)
  with run out obtain fr where
    lp: "exec_loop w to_addr (code ct)
           \<lparr>gas_remaining = gas_limit, stack = input_args, counts = Map.empty\<rparr> (stage w)
         = (Inr fr, sh')"
    and fin: "finish gas_limit fr = (ret, used, oc)"
    by (auto simp: exec_contract_frame.simps split: prod.splits sum.splits)
  from fin have "used = gas_limit - gas_remaining fr" by (auto simp: finish_def Let_def)
  moreover from trace_gas_accounted(1) [OF run] have "list_all gas_accounted (trace sh')"
    by (simp add: stage_def)
  ultimately show ?thesis using ct lp res by simp
qed

text \<open>Witness: the transaction to \<open>B\<close> of the demo, with its call of \<open>A\<close>.\<close>

theorem gas_conservation_witness:
  "\<exists>res ct fr sh'. fst (execute_transaction test_world ''B'' ''bob'' 800 [] 0 1) = Inr res
           \<and> test_world ''B'' = Some ct
           \<and> exec_loop test_world ''B'' (code ct)
                \<lparr>gas_remaining = 800, stack = [], counts = Map.empty\<rparr> (stage test_world)
              = (Inr fr, sh')
           \<and> gas_used res = 800 - gas_remaining fr
           \<and> call_trace res = trace sh'
           \<and> list_all gas_accounted (call_trace res)
           \<and> call_trace res = [Call ''B'' ''A'' 200 33 2]"
proof -
  let ?X = "execute_transaction test_world ''B'' ''bob'' 800 [] 0 1"
  have "map_option (\<lambda>r. (success r, call_trace r)) (returned ?X)
          = Some (True, [Call ''B'' ''A'' 200 33 2])"
    by code_simp
  then obtain res where r: "returned ?X = Some res" and s: "success res"
    and t: "call_trace res = [Call ''B'' ''A'' 200 33 2]"
    by auto
  from returnedD [OF r] have f: "fst ?X = Inr res" by auto
  from gas_conservation [OF f s] f t show ?thesis by auto
qed

text \<open>
  \<^bold>\<open>C6\<close> (a call whose callee returns). Let a \<^verbatim>\<open>CALL callee gas_amount nargs\<close> be charged
  (\<open>fr1\<close> are the caller's locals after the charge), pass both checks, and let the
  callee's frame, run on the last \<open>nargs\<close> stack values with budget \<open>gas_amount\<close>, return
  \<open>(ret, child_gas_used, child_op_counts)\<close>. Then the caller goes on with the next
  instruction, its remaining gas being what was left after the reservation of
  \<open>gas_amount\<close> plus the refund \<open>gas_amount - child_gas_used\<close>, its counts being its own
  merged with the callee's (key by key the sum), its stack being the values below the
  arguments with \<open>ret\<close> pushed; and the event
  \<open>Call caller callee gas_amount child_gas_used ret\<close> is appended to the trace the callee
  left. A frame returns an integer in every case, so the \<^verbatim>\<open>0 if None\<close> alternative of the
  push never applies.
\<close>

theorem call_success:
  assumes line: "strip line \<noteq> []" "split (strip line) = p # callee # gs # ns # extra"
    and op: "upper p = ''CALL''"
    and operands: "py_int gs = Some gas_amount" "py_int ns = Some nargs"
    and charged: "charge ''CALL'' fr = Inr fr1"
    and enough_gas: "gas_amount \<le> gas_remaining fr1"
    and enough_args: "nargs \<le> int (length (stack fr1))"
    and child: "exec_contract_frame w callee contract_addr gas_amount
                  (drop (length (stack fr1) - nat nargs) (stack fr1)) sh
                = (Inr (ret, child_gas_used, child_op_counts), sh')"
  shows "exec_loop w contract_addr (line # rest) fr sh =
           exec_loop w contract_addr rest
             (fr1\<lparr>gas_remaining := (gas_remaining fr1 - gas_amount) + (gas_amount - child_gas_used),
                  counts := merge_counts (counts fr1) child_op_counts,
                  stack := take (length (stack fr1) - nat nargs) (stack fr1) @ [ret]\<rparr>)
             (sh'\<lparr>trace := trace sh' @
                     [Call contract_addr callee gas_amount child_gas_used ret]\<rparr>)
         \<and> (\<forall>k. get_or (merge_counts (counts fr1) child_op_counts) k 0
                  = get_or (counts fr1) k 0 + get_or child_op_counts k 0)"
proof -
  let ?keep = "length (stack fr1) - nat nargs"
  let ?fr2 = "fr1\<lparr>stack := take ?keep (stack fr1),
                   gas_remaining := gas_remaining fr1 - gas_amount\<rparr>"
  from operands enough_gas enough_args
  have d: "dispatch (upper p) (p # callee # gs # ns # extra) contract_addr fr1 sh
             = Invoke callee gas_amount (drop ?keep (stack fr1)) ?fr2"
    by (simp add: op dispatch_def op_call_def Let_def)
  from charged op have ch: "charge (upper p) fr = Inr fr1" by simp
  have "exec_loop w contract_addr (line # rest) fr sh =
          exec_loop w contract_addr rest
            (?fr2\<lparr>gas_remaining := gas_remaining ?fr2 + (gas_amount - child_gas_used),
                  counts := merge_counts (counts ?fr2) child_op_counts,
                  stack := stack ?fr2 @ [ret]\<rparr>)
            (sh'\<lparr>trace := trace sh' @ [Call contract_addr callee gas_amount child_gas_used ret]\<rparr>)"
    by (rule exec_loop_Invoke_returns [OF line ch d child])
  then show ?thesis by (simp add: merge_counts_adds)
qed

text \<open>Witness: the second instruction of \<open>B\<close> in the demo transaction.\<close>

theorem call_success_witness:
  "\<exists>oc sh'.
     exec_contract_frame test_world ''A'' ''B'' 200 [2] (stage test_world) = (Inr (2, 33, oc), sh')
     \<and> exec_loop test_world ''B'' [''CALL A 200 1'', ''RETURN'']
          \<lparr>gas_remaining = 799, stack = [2], counts = [''PUSH'' \<mapsto> 1]\<rparr> (stage test_world)
        = exec_loop test_world ''B'' [''RETURN'']
            \<lparr>gas_remaining = (789 - 200) + (200 - 33), stack = [2],
             counts = merge_counts [''PUSH'' \<mapsto> 1, ''CALL'' \<mapsto> 1] oc\<rparr>
            (sh'\<lparr>trace := trace sh' @ [Call ''B'' ''A'' 200 33 2]\<rparr>)"
proof -
  let ?fr = "\<lparr>gas_remaining = 799, stack = [2], counts = [''PUSH'' \<mapsto> 1]\<rparr>"
  let ?fr1 = "\<lparr>gas_remaining = 789, stack = [2], counts = [''PUSH'' \<mapsto> 1, ''CALL'' \<mapsto> 1]\<rparr>"
  have l1: "strip ''CALL A 200 1'' \<noteq> []" by code_simp
  have l2: "split (strip ''CALL A 200 1'') = ''CALL'' # ''A'' # ''200'' # ''1'' # []" by code_simp
  have l3: "upper ''CALL'' = ''CALL''" by code_simp
  have l4: "py_int ''200'' = Some 200" by code_simp
  have l5: "py_int ''1'' = Some 1" by code_simp
  have l6: "charge ''CALL'' ?fr = Inr ?fr1"
    by (simp add: charge_def get_or_def OPCOST_def)
  have l7: "200 \<le> gas_remaining ?fr1" by simp
  have l8: "1 \<le> int (length (stack ?fr1))" by simp
  have "map_option (\<lambda>(ret, used, oc). (ret, used))
          (returned (exec_contract_frame test_world ''A'' ''B'' 200 [2] (stage test_world)))
        = Some (2, 33)"
    by code_simp
  then obtain oc where
    "returned (exec_contract_frame test_world ''A'' ''B'' 200 [2] (stage test_world))
       = Some (2, 33, oc)"
    by auto
  from returnedD [OF this] obtain sh' where child:
    "exec_contract_frame test_world ''A'' ''B'' 200 [2] (stage test_world) = (Inr (2, 33, oc), sh')"
    by auto
  then have l9: "exec_contract_frame test_world ''A'' ''B'' 200
                   (drop (length (stack ?fr1) - nat 1) (stack ?fr1)) (stage test_world)
                 = (Inr (2, 33, oc), sh')"
    by simp
  from call_success [OF l1 l2 l3 l4 l5 l6 l7 l8 l9, of "[''RETURN'']"] child
  show ?thesis by simp
qed

text \<open>
  \<^bold>\<open>C7\<close> (arithmetic). Let \<^verbatim>\<open>ADD\<close>, \<^verbatim>\<open>SUB\<close>, \<^verbatim>\<open>MUL\<close> or \<^verbatim>\<open>DIV\<close> be charged (\<open>fr1\<close> are the locals
  after the charge). With fewer than two values on the stack the frame raises
  "needs two operands". With \<open>a\<close> on top of \<open>b\<close>, both are popped and \<open>b + a\<close>, \<open>b - a\<close>,
  \<open>b * a\<close> or the floor of \<open>b / a\<close> is pushed, and the frame goes on with the next
  instruction; except that \<^verbatim>\<open>DIV\<close> with \<open>a = 0\<close> raises "Division by zero". The branch raises
  "Division by zero" exactly for \<^verbatim>\<open>DIV\<close> with at least two values and a zero on top.
\<close>

theorem arithmetic_step:
  assumes line: "strip line \<noteq> []" "split (strip line) = p # ps"
    and op: "upper p = op" "op \<in> {''ADD'', ''SUB'', ''MUL'', ''DIV''}"
    and charged: "charge op fr = Inr fr1"
  shows "(length (stack fr1) < 2 \<longrightarrow>
            exec_loop w contract_addr (line # rest) fr sh
              = (Inl (VMExecutionError (NeedsTwoOperands op)), sh))
       \<and> (\<forall>st b a. stack fr1 = st @ [b, a] \<longrightarrow>
            exec_loop w contract_addr (line # rest) fr sh
              = (if op = ''DIV'' \<and> a = 0 then (Inl (VMExecutionError DivisionByZero), sh)
                 else exec_loop w contract_addr rest
                        (fr1\<lparr>stack := st @
                            [if op = ''ADD'' then b + a
                             else if op = ''SUB'' then b - a
                             else if op = ''MUL'' then b * a
                             else \<lfloor>real_of_int b / real_of_int a\<rfloor>]\<rparr>) sh))
       \<and> (dispatch op (p # ps) contract_addr fr1 sh = Raise (VMExecutionError DivisionByZero)
            \<longleftrightarrow> op = ''DIV'' \<and> 2 \<le> length (stack fr1) \<and> last (stack fr1) = 0)"
proof -
  from op have d: "dispatch op (p # ps) contract_addr fr1 sh = op_arith op fr1 sh"
    by (auto simp: dispatch_def)
  from charged op have ch: "charge (upper p) fr = Inr fr1" by simp
  have underflow: "exec_loop w contract_addr (line # rest) fr sh
              = (Inl (VMExecutionError (NeedsTwoOperands op)), sh)" if "length (stack fr1) < 2"
  proof -
    from that d op have "dispatch (upper p) (p # ps) contract_addr fr1 sh
        = Raise (VMExecutionError (NeedsTwoOperands op))"
      by (simp add: op_arith_def)
    from exec_loop_Raise [OF line ch this] show ?thesis .
  qed
  have run: "exec_loop w contract_addr (line # rest) fr sh
              = (if op = ''DIV'' \<and> a = 0 then (Inl (VMExecutionError DivisionByZero), sh)
                 else exec_loop w contract_addr rest
                        (fr1\<lparr>stack := st @
                            [if op = ''ADD'' then b + a
                             else if op = ''SUB'' then b - a
                             else if op = ''MUL'' then b * a
                             else \<lfloor>real_of_int b / real_of_int a\<rfloor>]\<rparr>) sh)"
    if st: "stack fr1 = st @ [b, a]" for st b a
  proof (cases "op = ''DIV'' \<and> a = 0")
    case True
    with st d op have "dispatch (upper p) (p # ps) contract_addr fr1 sh
        = Raise (VMExecutionError DivisionByZero)"
      by (simp add: op_arith_def Let_def)
    from exec_loop_Raise [OF line ch this] show ?thesis by (simp only: if_P [OF True])
  next
    case False
    with st d op have "dispatch (upper p) (p # ps) contract_addr fr1 sh
        = Continue (fr1\<lparr>stack := st @
                            [if op = ''ADD'' then b + a
                             else if op = ''SUB'' then b - a
                             else if op = ''MUL'' then b * a
                             else \<lfloor>real_of_int b / real_of_int a\<rfloor>]\<rparr>) sh"
      by (auto simp add: op_arith_def Let_def butlast_append floor_divide_of_int_eq)
    from exec_loop_Continue [OF line ch this] show ?thesis by (simp only: if_not_P [OF False])
  qed
  have "dispatch op (p # ps) contract_addr fr1 sh = Raise (VMExecutionError DivisionByZero)
            \<longleftrightarrow> op = ''DIV'' \<and> 2 \<le> length (stack fr1) \<and> last (stack fr1) = 0"
    using op(2) by (auto simp: d op_arith_def Let_def)
  with underflow run show ?thesis by blast
qed

text \<open>Witness: \<^verbatim>\<open>DIV\<close> on a one-value stack, on \<open>-7\<close> and \<open>2\<close> (the quotient is \<open>-4\<close>, rounded
  down), and on \<open>7\<close> and \<open>0\<close>.\<close>

theorem arithmetic_step_witness:
  "exec_loop test_world ''A'' [''div'']
      \<lparr>gas_remaining = 100, stack = [5], counts = Map.empty\<rparr> (stage test_world)
     = (Inl (VMExecutionError (NeedsTwoOperands ''DIV'')), stage test_world)
   \<and> exec_loop test_world ''A'' [''div'']
        \<lparr>gas_remaining = 100, stack = [1, - 7, 2], counts = Map.empty\<rparr> (stage test_world)
     = (Inr \<lparr>gas_remaining = 95, stack = [1, - 4], counts = [''DIV'' \<mapsto> 1]\<rparr>, stage test_world)
   \<and> exec_loop test_world ''A'' [''div'']
        \<lparr>gas_remaining = 100, stack = [7, 0], counts = Map.empty\<rparr> (stage test_world)
     = (Inl (VMExecutionError DivisionByZero), stage test_world)"
proof -
  have l1: "strip ''div'' \<noteq> []" by code_simp
  have l2: "split (strip ''div'') = ''div'' # []" by code_simp
  have l3: "upper ''div'' = ''DIV''" by code_simp
  have l4: "''DIV'' \<in> {''ADD'', ''SUB'', ''MUL'', ''DIV''}" by simp
  have c: "charge ''DIV'' \<lparr>gas_remaining = 100, stack = st, counts = Map.empty\<rparr>
             = Inr \<lparr>gas_remaining = 95, stack = st, counts = [''DIV'' \<mapsto> 1]\<rparr>" for st
    by (simp add: charge_def get_or_def OPCOST_def)
  have f: "\<lfloor>real_of_int (- 7) / real_of_int 2\<rfloor> = - 4" by simp
  from arithmetic_step [OF l1 l2 l3 l4 c [of "[5]"], of test_world "''A''" "[]" "stage test_world"]
  have a: "exec_loop test_world ''A'' [''div'']
      \<lparr>gas_remaining = 100, stack = [5], counts = Map.empty\<rparr> (stage test_world)
     = (Inl (VMExecutionError (NeedsTwoOperands ''DIV'')), stage test_world)"
    by simp
  from arithmetic_step [OF l1 l2 l3 l4 c [of "[1, - 7, 2]"],
         of test_world "''A''" "[]" "stage test_world"]
  have "exec_loop test_world ''A'' [''div'']
      \<lparr>gas_remaining = 100, stack = [1, - 7, 2], counts = Map.empty\<rparr> (stage test_world)
     = exec_loop test_world ''A'' []
         (\<lparr>gas_remaining = 95, stack = [1, - 7, 2], counts = [''DIV'' \<mapsto> 1]\<rparr>
            \<lparr>stack := [1] @ [\<lfloor>real_of_int (- 7) / real_of_int 2\<rfloor>]\<rparr>) (stage test_world)"
    by simp
  with f have b: "exec_loop test_world ''A'' [''div'']
      \<lparr>gas_remaining = 100, stack = [1, - 7, 2], counts = Map.empty\<rparr> (stage test_world)
     = (Inr \<lparr>gas_remaining = 95, stack = [1, - 4], counts = [''DIV'' \<mapsto> 1]\<rparr>, stage test_world)"
    by simp
  from arithmetic_step [OF l1 l2 l3 l4 c [of "[7, 0]"],
         of test_world "''A''" "[]" "stage test_world"]
  have "exec_loop test_world ''A'' [''div'']
        \<lparr>gas_remaining = 100, stack = [7, 0], counts = Map.empty\<rparr> (stage test_world)
     = (Inl (VMExecutionError DivisionByZero), stage test_world)"
    by simp
  with a b show ?thesis by simp
qed

text \<open>
  \<^bold>\<open>C8\<close> (lookup). \<open>get_contract\<close> answers with the contract stored at the address (after
  a deployment, the deployed one) or with \<^verbatim>\<open>None\<close>, and leaves the world as it was. The
  interpreter's own lookup raises "Contract not found" for an address that is not
  deployed, with the shared objects untouched: a transaction addressed to it returns a
  failed result and leaves the world unchanged, and a \<^verbatim>\<open>CALL\<close> to it that has been charged
  and has passed its two checks makes the calling frame raise "Contract not found".
\<close>

theorem lookup_contract:
  "get_contract w addr = (w addr, w)
   \<and> (deploy w addr cd = Inr w' \<longrightarrow>
        get_contract w' addr = (Some \<lparr>address = addr, code = cd, storage = Map.empty\<rparr>, w'))
   \<and> (w addr = None \<longrightarrow>
        exec_contract_frame w addr caller gas_limit stk sh
          = (Inl (VMExecutionError (ContractNotFound addr)), sh))
   \<and> (w addr = None \<longrightarrow>
        (\<exists>res. execute_transaction w addr caller gas_limit stk start stop = (Inr res, w)
               \<and> \<not> success res))
   \<and> (strip line \<noteq> [] \<and> split (strip line) = p # addr # gs # ns # extra \<and> upper p = ''CALL''
        \<and> py_int gs = Some gas_amount \<and> py_int ns = Some nargs
        \<and> charge ''CALL'' fr = Inr fr'
        \<and> gas_amount \<le> gas_remaining fr' \<and> nargs \<le> int (length (stack fr'))
        \<and> w addr = None \<longrightarrow>
        exec_loop w contract_addr (line # rest) fr sh
          = (Inl (VMExecutionError (ContractNotFound addr)), sh))"
proof -
  have not_found: "exec_contract_frame w addr c g st sh0
          = (Inl (VMExecutionError (ContractNotFound addr)), sh0)" if "w addr = None" for c g st sh0
    using that by (simp add: exec_contract_frame.simps)
  have call: "exec_loop w contract_addr (line # rest) fr sh
          = (Inl (VMExecutionError (ContractNotFound addr)), sh)"
    if line: "strip line \<noteq> []" "split (strip line) = p # addr # gs # ns # extra"
      and op: "upper p = ''CALL''"
      and operands: "py_int gs = Some gas_amount" "py_int ns = Some nargs"
      and charged: "charge ''CALL'' fr = Inr fr'"
      and enough: "gas_amount \<le> gas_remaining fr'" "nargs \<le> int (length (stack fr'))"
      and none: "w addr = None"
  proof -
    let ?keep = "length (stack fr') - nat nargs"
    from operands enough
    have d: "dispatch (upper p) (p # addr # gs # ns # extra) contract_addr fr' sh
             = Invoke addr gas_amount (drop ?keep (stack fr'))
                 (fr'\<lparr>stack := take ?keep (stack fr'),
                      gas_remaining := gas_remaining fr' - gas_amount\<rparr>)"
      by (simp add: op dispatch_def op_call_def Let_def)
    from charged op have ch: "charge (upper p) fr = Inr fr'" by simp
    from exec_loop_Invoke_raises [OF line ch d not_found [OF none]] show ?thesis .
  qed
  have dep: "get_contract w' addr = (Some \<lparr>address = addr, code = cd, storage = Map.empty\<rparr>, w')"
    if "deploy w addr cd = Inr w'"
    using that by (auto simp: deploy_def get_contract_def split: if_splits)
  have tx: "\<exists>res. execute_transaction w addr caller gas_limit stk start stop = (Inr res, w)
               \<and> \<not> success res" if "w addr = None"
    by (simp add: execute_transaction_def not_found [OF that])
  from not_found call dep tx show ?thesis
    by (simp add: get_contract_def)
qed

text \<open>Witness: the address \<open>Z\<close> is not deployed in the example world.\<close>

theorem lookup_contract_witness:
  "get_contract test_world ''Z'' = (None, test_world)
   \<and> get_contract (test_world(''Z'' \<mapsto> \<lparr>address = ''Z'', code = [''RETURN''], storage = Map.empty\<rparr>))
        ''Z''
      = (Some \<lparr>address = ''Z'', code = [''RETURN''], storage = Map.empty\<rparr>,
         test_world(''Z'' \<mapsto> \<lparr>address = ''Z'', code = [''RETURN''], storage = Map.empty\<rparr>))
   \<and> exec_contract_frame test_world ''Z'' ''alice'' 100 [] (stage test_world)
      = (Inl (VMExecutionError (ContractNotFound ''Z'')), stage test_world)
   \<and> (\<exists>res. execute_transaction test_world ''Z'' ''alice'' 100 [] 0 1 = (Inr res, test_world)
             \<and> \<not> success res)
   \<and> exec_loop test_world ''A'' [''CALL Z 5 0'', ''RETURN'']
        \<lparr>gas_remaining = 100, stack = [], counts = Map.empty\<rparr> (stage test_world)
      = (Inl (VMExecutionError (ContractNotFound ''Z'')), stage test_world)"
proof -
  let ?fr = "\<lparr>gas_remaining = 100, stack = [], counts = Map.empty\<rparr>"
  let ?fr1 = "\<lparr>gas_remaining = 90, stack = [], counts = [''CALL'' \<mapsto> 1]\<rparr>"
  let ?c = "\<lparr>address = ''Z'', code = [''RETURN''], storage = Map.empty\<rparr>"
  have z: "test_world ''Z'' = None" by (simp add: test_world_def)
  then have d: "deploy test_world ''Z'' [''RETURN''] = Inr (test_world(''Z'' \<mapsto> ?c))"
    by (simp add: deploy_def dom_def)
  have l1: "strip ''CALL Z 5 0'' \<noteq> []" by code_simp
  have l2: "split (strip ''CALL Z 5 0'') = ''CALL'' # ''Z'' # ''5'' # ''0'' # []" by code_simp
  have l3: "upper ''CALL'' = ''CALL''" by code_simp
  have l4: "py_int ''5'' = Some 5" by code_simp
  have l5: "py_int ''0'' = Some 0" by code_simp
  have l6: "charge ''CALL'' ?fr = Inr ?fr1" by (simp add: charge_def get_or_def OPCOST_def)
  have l7: "5 \<le> gas_remaining ?fr1" by simp
  have l8: "0 \<le> int (length (stack ?fr1))" by simp
  from lookup_contract [where w = test_world and addr = "''Z''" and cd = "[''RETURN'']"
                 and w' = "test_world(''Z'' \<mapsto> ?c)" and caller = "''alice''" and gas_limit = 100
                 and stk = "[]" and sh = "stage test_world" and start = 0 and stop = 1
                 and line = "''CALL Z 5 0''" and p = "''CALL''" and gs = "''5''" and ns = "''0''"
                 and extra = "[]" and gas_amount = 5 and nargs = 0 and fr = ?fr and fr' = ?fr1
                 and contract_addr = "''A''" and rest = "[''RETURN'']"]
       z d l1 l2 l3 l4 l5 l6 l7 l8
  show ?thesis by simp
qed




text \<open>
  \<^bold>\<open>C10\<close> (a negative gas amount). Let a \<^verbatim>\<open>CALL\<close> with a negative gas amount be charged
  (so the caller has at least 0 left), find its arguments, and name a deployed contract.
  Then the check of the gas amount does not raise; the callee's frame, run with the
  negative budget, raises "Out of gas" unless every line of its code is blank, in which
  case it returns the top of its arguments (or 0) having used 0; and accordingly the
  calling frame raises "Out of gas", or goes on with the callee's value pushed, its gas
  as it was after the charge and a \<open>call\<close> event with \<open>gas_used = 0\<close>.
\<close>

theorem negative_call_gas:
  assumes line: "strip line \<noteq> []" "split (strip line) = p # callee # gs # ns # extra"
    and op: "upper p = ''CALL''"
    and operands: "py_int gs = Some gas_amount" "py_int ns = Some nargs"
    and negative: "gas_amount < 0"
    and charged: "charge ''CALL'' fr = Inr fr1"
    and enough_args: "nargs \<le> int (length (stack fr1))"
    and deployed: "w callee = Some ct" "snapshot sh callee = Some ls"
  shows "op_call (p # callee # gs # ns # extra) fr1 \<noteq> Raise (VMExecutionError InsufficientGasForCall)
       \<and> exec_contract_frame w callee contract_addr gas_amount
            (drop (length (stack fr1) - nat nargs) (stack fr1)) sh
          = (if \<forall>l\<in>set (code ct). strip l = []
             then (Inr (finish gas_amount
                          \<lparr>gas_remaining = gas_amount,
                           stack = drop (length (stack fr1) - nat nargs) (stack fr1),
                           counts = Map.empty\<rparr>), sh)
             else (Inl (VMExecutionError OutOfGas), sh))
       \<and> exec_loop w contract_addr (line # rest) fr sh
          = (if \<forall>l\<in>set (code ct). strip l = []
             then exec_loop w contract_addr rest
                    (fr1\<lparr>stack := take (length (stack fr1) - nat nargs) (stack fr1) @
                       [if drop (length (stack fr1) - nat nargs) (stack fr1) \<noteq> []
                        then last (stack fr1) else 0]\<rparr>)
                    (sh\<lparr>trace := trace sh @
                        [Call contract_addr callee gas_amount 0
                           (if drop (length (stack fr1) - nat nargs) (stack fr1) \<noteq> []
                            then last (stack fr1) else 0)]\<rparr>)
             else (Inl (VMExecutionError OutOfGas), sh))"
proof -
  let ?keep = "length (stack fr1) - nat nargs"
  let ?args = "drop ?keep (stack fr1)"
  let ?fr2 = "fr1\<lparr>stack := take ?keep (stack fr1),
                   gas_remaining := gas_remaining fr1 - gas_amount\<rparr>"
  let ?init = "\<lparr>gas_remaining = gas_amount, stack = ?args, counts = Map.empty\<rparr>"
  from charge_CALL [OF charged] negative have gas: "gas_amount \<le> gas_remaining fr1" by simp
  with operands enough_args
  have oc: "op_call (p # callee # gs # ns # extra) fr1 = Invoke callee gas_amount ?args ?fr2"
    by (simp add: op_call_def Let_def)
  then have d: "dispatch (upper p) (p # callee # gs # ns # extra) contract_addr fr1 sh
             = Invoke callee gas_amount ?args ?fr2"
    by (simp add: op dispatch_def)
  from charged op have ch: "charge (upper p) fr = Inr fr1" by simp
  from negative have lp: "exec_loop w callee (code ct) ?init sh =
       (if \<forall>l\<in>set (code ct). strip l = [] then (Inr ?init, sh)
        else (Inl (VMExecutionError OutOfGas), sh))"
    by (simp add: exec_loop_negative_gas)
  with deployed have child: "exec_contract_frame w callee contract_addr gas_amount ?args sh
          = (if \<forall>l\<in>set (code ct). strip l = []
             then (Inr (finish gas_amount ?init), sh)
             else (Inl (VMExecutionError OutOfGas), sh))"
    by (simp add: exec_contract_frame.simps)
  have "exec_loop w contract_addr (line # rest) fr sh
          = (if \<forall>l\<in>set (code ct). strip l = []
             then exec_loop w contract_addr rest
                    (fr1\<lparr>stack := take ?keep (stack fr1) @
                        [if ?args \<noteq> [] then last (stack fr1) else 0]\<rparr>)
                    (sh\<lparr>trace := trace sh @
                        [Call contract_addr callee gas_amount 0
                           (if ?args \<noteq> [] then last (stack fr1) else 0)]\<rparr>)
             else (Inl (VMExecutionError OutOfGas), sh))"
  proof (cases "\<forall>l\<in>set (code ct). strip l = []")
    case True
    with child have c: "exec_contract_frame w callee contract_addr gas_amount ?args sh
        = (Inr (if ?args \<noteq> [] then last ?args else 0, 0, Map.empty), sh)"
      by (simp add: finish_def Let_def)
    have "(if ?args \<noteq> [] then last ?args else 0) = (if ?args \<noteq> [] then last (stack fr1) else 0)"
      by simp
    with exec_loop_Invoke_returns [OF line ch d c]
    have "exec_loop w contract_addr (line # rest) fr sh
          = exec_loop w contract_addr rest
                    (fr1\<lparr>stack := take ?keep (stack fr1) @
                        [if ?args \<noteq> [] then last (stack fr1) else 0]\<rparr>)
                    (sh\<lparr>trace := trace sh @
                        [Call contract_addr callee gas_amount 0
                           (if ?args \<noteq> [] then last (stack fr1) else 0)]\<rparr>)"
      by (simp add: merge_counts_empty)
    then show ?thesis by (simp only: if_P [OF True])
  next
    case False
    with child have c: "exec_contract_frame w callee contract_addr gas_amount ?args sh
        = (Inl (VMExecutionError OutOfGas), sh)" by simp
    from exec_loop_Invoke_raises [OF line ch d c] show ?thesis by (simp only: if_not_P [OF False])
  qed
  with oc child show ?thesis by (simp only: action.distinct simp_thms)
qed

text \<open>Witness: \<open>M\<close> calls \<open>A\<close>, which has instructions, and \<open>N\<close> calls the empty \<open>E\<close>, both with
  the gas amount -5.\<close>

theorem negative_call_gas_witness:
  "exec_loop test_world ''M'' [''CALL A -5 0'']
      \<lparr>gas_remaining = 500, stack = [], counts = Map.empty\<rparr> (stage test_world)
     = (Inl (VMExecutionError OutOfGas), stage test_world)
   \<and> exec_loop test_world ''N'' [''CALL E -5 0'']
        \<lparr>gas_remaining = 500, stack = [], counts = Map.empty\<rparr> (stage test_world)
     = (Inr \<lparr>gas_remaining = 490, stack = [0], counts = [''CALL'' \<mapsto> 1]\<rparr>,
        (stage test_world)\<lparr>trace := [Call ''N'' ''E'' (- 5) 0 0]\<rparr>)"
proof -
  let ?fr = "\<lparr>gas_remaining = 500, stack = [], counts = Map.empty\<rparr>"
  let ?fr1 = "\<lparr>gas_remaining = 490, stack = [], counts = [''CALL'' \<mapsto> 1]\<rparr>"
  let ?A = "\<lparr>address = ''A'',
             code = [''LOAD counter'', ''ADD'', ''STORE counter'', ''LOAD counter'', ''RETURN''],
             storage = Map.empty\<rparr>"
  let ?E = "\<lparr>address = ''E'', code = [], storage = Map.empty\<rparr>"
  have a1: "strip ''CALL A -5 0'' \<noteq> []" by code_simp
  have a2: "split (strip ''CALL A -5 0'') = ''CALL'' # ''A'' # ''-5'' # ''0'' # []" by code_simp
  have e1: "strip ''CALL E -5 0'' \<noteq> []" by code_simp
  have e2: "split (strip ''CALL E -5 0'') = ''CALL'' # ''E'' # ''-5'' # ''0'' # []" by code_simp
  have l3: "upper ''CALL'' = ''CALL''" by code_simp
  have l4: "py_int ''-5'' = Some (- 5)" by code_simp
  have l5: "py_int ''0'' = Some 0" by code_simp
  have l6: "(- 5 :: int) < 0" by simp
  have l7: "charge ''CALL'' ?fr = Inr ?fr1" by (simp add: charge_def get_or_def OPCOST_def)
  have l8: "0 \<le> int (length (stack ?fr1))" by simp
  have wa: "test_world ''A'' = Some ?A" by (simp add: test_world_def)
  have we: "test_world ''E'' = Some ?E" by (simp add: test_world_def)
  have sa: "snapshot (stage test_world) ''A'' = Some Map.empty"
    by (simp add: stage_def test_world_def)
  have se: "snapshot (stage test_world) ''E'' = Some Map.empty"
    by (simp add: stage_def test_world_def)
  have blank: "\<not> (\<forall>l\<in>set (code ?A). strip l = [])" by code_simp
  from negative_call_gas [where w = test_world and contract_addr = "''M''" and rest = "[]",
         OF a1 a2 l3 l4 l5 l6 l7 l8 wa sa, unfolded if_not_P [OF blank]]
  have m: "exec_loop test_world ''M'' [''CALL A -5 0''] ?fr (stage test_world)
     = (Inl (VMExecutionError OutOfGas), stage test_world)"
    by simp
  from negative_call_gas [where w = test_world and contract_addr = "''N''" and rest = "[]",
         OF e1 e2 l3 l4 l5 l6 l7 l8 we se]
  have "exec_loop test_world ''N'' [''CALL E -5 0''] ?fr (stage test_world)
     = (Inr \<lparr>gas_remaining = 490, stack = [0], counts = [''CALL'' \<mapsto> 1]\<rparr>,
        (stage test_world)\<lparr>trace := [Call ''N'' ''E'' (- 5) 0 0]\<rparr>)"
    by (simp add: stage_def)
  with m show ?thesis by simp
qed

end
